theory Spec2Isabelle
  imports Complex_Main
begin

section \<open>divvy: the rule configuration of \<^verbatim>\<open>src/config.js\<close>\<close>

text \<open>
  A shallow embedding of the class \<^verbatim>\<open>Config\<close>: the glob compiler \<^verbatim>\<open>parseGlob\<close>, the
  matcher \<^verbatim>\<open>findRules\<close>, the construction of a rule set by \<^verbatim>\<open>addRule\<close> and
  \<^verbatim>\<open>validate\<close>, the loaders \<^verbatim>\<open>fromJsonFile\<close>, \<^verbatim>\<open>fromIniFile\<close> and
  \<^verbatim>\<open>processNewRules\<close>, and the serializer \<^verbatim>\<open>toJson\<close>.

  Conventions of the embedding.
  \<^item> A JavaScript string is a \<open>string\<close>; a character stands for one code unit below 256.
  \<^item> A plain object with string values (an operation) is an association list in the
    order of \<^verbatim>\<open>Object.keys\<close>. The value of \<^verbatim>\<open>o[k]\<close> is \<open>getProperty o k\<close>: an
    own property, else a member of \<^verbatim>\<open>Object.prototype\<close>, else \<^verbatim>\<open>undefined\<close>.
  \<^item> An optional string field is a \<open>string option\<close>: \<open>None\<close> stands for
    \<^verbatim>\<open>undefined\<close> and \<^verbatim>\<open>null\<close>.
  \<^item> A thrown exception is a value of the type \<open>error\<close>. A method that mutates the
    configuration returns the exception, if any, together with the configuration as the
    method leaves it.
\<close>

subsection \<open>Errors\<close>

text \<open>
  One constructor for each \<^verbatim>\<open>throw\<close> of the class, for the syntax error of the
  \<^verbatim>\<open>RegExp\<close> constructor, for a type error and for the syntax error of
  \<^verbatim>\<open>JSON.parse\<close>. \<open>UnreachableRule a b\<close> is the error with the message
  \<^verbatim>\<open>Unreachable rule for operation=a; masked by operation=b\<close>, where \<open>a\<close> and \<open>b\<close>
  are the texts that the template literal makes of the two objects (see
  \<open>renderOperation\<close>). The errors about a label or a match policy carry the string
  that their message quotes. The messages about \<^verbatim>\<open>creditLimit\<close> and
  \<^verbatim>\<open>resetSeconds\<close> are not modelled beyond the exception that building them can
  raise.
\<close>

type_synonym operation = "(string \<times> string) list"

datatype error =
    OperationMustBeSpecified
  | UnreachableRule string string
  | InvalidCreditLimit
  | InvalidResetSeconds
  | InvalidRuleLabel string
  | DuplicateRuleLabel string
  | InvalidMatchPolicy string
  | ConfigNoRules
  | ConfigNoDefaultRule
  | BugNoMatchPolicy
  | RegExpNothingToRepeat
  | RegExpUnmodelled
  | TypeError
  | JsonSyntaxError

subsection \<open>Regular expressions built by \<^verbatim>\<open>parseGlob\<close>\<close>

text \<open>
  \<^verbatim>\<open>const REGEX_ESCAPE_CHARACTERS = /[-[\]{}()+?.,\\^$|#]/g;\<close>
\<close>

definition backslash :: char where
  "backslash = CHR 0x5C"

definition REGEX_ESCAPE_CHARACTERS :: "char list" where
  "REGEX_ESCAPE_CHARACTERS =
     [CHR ''-'', CHR ''['', CHR '']'', CHR ''{'', CHR ''}'', CHR ''('', CHR '')'', CHR ''+'',
      CHR ''?'', CHR ''.'', CHR '','', backslash, CHR ''^'', CHR ''$'', CHR ''|'', CHR ''#'']"

text \<open>\<^verbatim>\<open>function isGlobValue(v) { return v.match(/\*/); }\<close>, read as a truth value.\<close>

definition isGlobValue :: "string \<Rightarrow> bool" where
  "isGlobValue v = (CHR ''*'' \<in> set v)"

text \<open>
  \<^verbatim>\<open>ruleValue.replace(REGEX_ESCAPE_CHARACTERS, '\\$&')\<close>: the pattern has the flag
  \<^verbatim>\<open>g\<close>, so every character of the class is replaced by a backslash and itself.
\<close>

fun escapeRegex :: "string \<Rightarrow> string" where
  "escapeRegex [] = []"
| "escapeRegex (c # cs) =
     (if c \<in> set REGEX_ESCAPE_CHARACTERS then backslash # c # escapeRegex cs
      else c # escapeRegex cs)"

text \<open>
  \<^verbatim>\<open>ruleValue.replace('*', '.*')\<close>: the pattern is a string, so only its first
  occurrence is replaced.
\<close>

fun replaceFirstStar :: "string \<Rightarrow> string" where
  "replaceFirstStar [] = []"
| "replaceFirstStar (c # cs) =
     (if c = CHR ''*'' then CHR ''.'' # CHR ''*'' # cs else c # replaceFirstStar cs)"

text \<open>
  The constructor \<^verbatim>\<open>new RegExp(source)\<close> and the method \<^verbatim>\<open>test\<close> belong to the
  language. They are modelled on the sources \<^verbatim>\<open>parseGlob\<close> can build: the assertion
  \<^verbatim>\<open>^\<close> at the start, then atoms, each followed by at most one quantifier \<^verbatim>\<open>*\<close>.
  An atom is a backslash and a punctuation character (an identity escape), the dot, or
  a character that is not a syntax character. A \<^verbatim>\<open>*\<close> with no atom before it raises
  the syntax error "Nothing to repeat". Any other syntax is answered by
  \<open>RegExpUnmodelled\<close>; \<^verbatim>\<open>parseGlob\<close> never builds it (lemma \<open>parseGlob_modelled\<close>).
\<close>

datatype atom = Lit char | AnyChar

datatype piece = Once atom | Many atom

type_synonym regexp = "piece list"

definition syntaxCharacters :: "char list" where
  "syntaxCharacters =
     [CHR ''^'', CHR ''$'', backslash, CHR ''.'', CHR ''*'', CHR ''+'', CHR ''?'', CHR ''('',
      CHR '')'', CHR ''['', CHR '']'', CHR ''{'', CHR ''}'', CHR ''|'']"

definition quantified :: "atom \<Rightarrow> bool \<Rightarrow> error + regexp \<Rightarrow> error + regexp" where
  "quantified a star rest =
     (case rest of Inl e \<Rightarrow> Inl e
      | Inr ps \<Rightarrow> Inr ((if star then Many a else Once a) # ps))"

fun parsePieces :: "string \<Rightarrow> error + regexp" where
  "parsePieces [] = Inr []"
| "parsePieces [c] =
     (if c = CHR ''*'' then Inl RegExpNothingToRepeat
      else if c = CHR ''.'' then Inr [Once AnyChar]
      else if c \<in> set syntaxCharacters then Inl RegExpUnmodelled
      else Inr [Once (Lit c)])"
| "parsePieces (c # d # cs) =
     (if c = CHR ''*'' then Inl RegExpNothingToRepeat
      else if c = backslash then
        (if d \<in> set REGEX_ESCAPE_CHARACTERS then
           (case cs of
              [] \<Rightarrow> Inr [Once (Lit d)]
            | e # es \<Rightarrow>
                if e = CHR ''*'' then quantified (Lit d) True (parsePieces es)
                else quantified (Lit d) False (parsePieces (e # es)))
         else Inl RegExpUnmodelled)
      else if c = CHR ''.'' then
        (if d = CHR ''*'' then quantified AnyChar True (parsePieces cs)
         else quantified AnyChar False (parsePieces (d # cs)))
      else if c \<in> set syntaxCharacters then Inl RegExpUnmodelled
      else
        (if d = CHR ''*'' then quantified (Lit c) True (parsePieces cs)
         else quantified (Lit c) False (parsePieces (d # cs))))"

definition RegExp_new :: "string \<Rightarrow> error + regexp" where
  "RegExp_new source =
     (case source of
        [] \<Rightarrow> Inl RegExpUnmodelled
      | c # cs \<Rightarrow> if c = CHR ''^'' then parsePieces cs else Inl RegExpUnmodelled)"

text \<open>
  \<^verbatim>\<open>static parseGlob(ruleValue) {
    ruleValue = ruleValue.replace(REGEX_ESCAPE_CHARACTERS, '\\$&');
    ruleValue = ruleValue.replace('*', '.*');
    return new RegExp(`^${ruleValue}`);
  }\<close>
\<close>

definition globSource :: "string \<Rightarrow> string" where
  "globSource ruleValue = CHR ''^'' # replaceFirstStar (escapeRegex ruleValue)"

definition parseGlob :: "string \<Rightarrow> error + regexp" where
  "parseGlob ruleValue = RegExp_new (globSource ruleValue)"

text \<open>
  Matching. The dot matches every character but a line terminator. The expression has
  no flag and starts with \<^verbatim>\<open>^\<close>, so \<^verbatim>\<open>test\<close> asks whether the pieces match a prefix
  of the subject; backtracking tries every number of repetitions of a starred atom.
  The argument of \<^verbatim>\<open>test\<close> is converted to a string: \<^verbatim>\<open>undefined\<close>, here
  \<open>None\<close>, becomes \<^verbatim>\<open>"undefined"\<close>; \<open>Some s\<close> is a value that converts to
  \<open>s\<close>.
\<close>

definition lineTerminator :: "char \<Rightarrow> bool" where
  "lineTerminator c = (c = CHR 0x0A \<or> c = CHR 0x0D)"

fun atomMatches :: "atom \<Rightarrow> char \<Rightarrow> bool" where
  "atomMatches (Lit c) d = (c = d)"
| "atomMatches AnyChar d = (\<not> lineTerminator d)"

fun matchesPrefix :: "regexp \<Rightarrow> string \<Rightarrow> bool" where
  "matchesPrefix [] s = True"
| "matchesPrefix (Once a # ps) [] = False"
| "matchesPrefix (Once a # ps) (c # s) = (atomMatches a c \<and> matchesPrefix ps s)"
| "matchesPrefix (Many a # ps) [] = matchesPrefix ps []"
| "matchesPrefix (Many a # ps) (c # s) =
     ((atomMatches a c \<and> matchesPrefix (Many a # ps) s) \<or> matchesPrefix ps (c # s))"

definition toStringArg :: "string option \<Rightarrow> string" where
  "toStringArg x = (case x of None \<Rightarrow> ''undefined'' | Some s \<Rightarrow> s)"

definition RegExp_test :: "regexp \<Rightarrow> string option \<Rightarrow> bool" where
  "RegExp_test re x = matchesPrefix re (toStringArg x)"

subsection \<open>Values, rules and the configuration\<close>

text \<open>
  The fields \<^verbatim>\<open>creditLimit\<close> and \<^verbatim>\<open>resetSeconds\<close> hold a number, \<^verbatim>\<open>null\<close>,
  or \<^verbatim>\<open>undefined\<close> for a missing field. A number is \<^verbatim>\<open>NaN\<close> (from
  \<^verbatim>\<open>parseInt\<close>), \<^verbatim>\<open>Infinity\<close> or \<^verbatim>\<open>-Infinity\<close> (from \<^verbatim>\<open>JSON.parse\<close> of
  \<^verbatim>\<open>1e999\<close>, or from \<^verbatim>\<open>parseInt\<close> of a long run of digits), or finite, and then
  a rational (the two zeros are one value; \<^verbatim>\<open>===\<close> and JSON do not tell them
  apart). Values of other types in these fields (strings, booleans, arrays) are not
  modelled.

  \<open>isNaN_Number v\<close> is \<^verbatim>\<open>Number.isNaN(Number(v))\<close>, \<open>jsLess v q\<close> is \<^verbatim>\<open>v < q\<close>
  and \<open>jsGreater v q\<close> is \<^verbatim>\<open>v > q\<close>: \<^verbatim>\<open>undefined\<close> converts to \<^verbatim>\<open>NaN\<close>,
  \<^verbatim>\<open>null\<close> to 0, and a comparison with \<^verbatim>\<open>NaN\<close> is false.
\<close>

datatype jsvalue = Undefined | Null | NaN | Infinity | NegInfinity | Num rat

fun isNaN_Number :: "jsvalue \<Rightarrow> bool" where
  "isNaN_Number Undefined = True"
| "isNaN_Number NaN = True"
| "isNaN_Number v = False"

fun jsLess :: "jsvalue \<Rightarrow> rat \<Rightarrow> bool" where
  "jsLess Undefined q = False"
| "jsLess Null q = (0 < q)"
| "jsLess NaN q = False"
| "jsLess Infinity q = False"
| "jsLess NegInfinity q = True"
| "jsLess (Num x) q = (x < q)"

fun jsGreater :: "jsvalue \<Rightarrow> rat \<Rightarrow> bool" where
  "jsGreater Undefined q = False"
| "jsGreater Null q = (q < 0)"
| "jsGreater NaN q = False"
| "jsGreater Infinity q = True"
| "jsGreater NegInfinity q = False"
| "jsGreater (Num x) q = (q < x)"

text \<open>Truthiness of an optional string, \<^verbatim>\<open>x || null\<close> and \<^verbatim>\<open>x || y\<close>.\<close>

definition truthy :: "string option \<Rightarrow> bool" where
  "truthy x = (case x of None \<Rightarrow> False | Some s \<Rightarrow> s \<noteq> [])"

definition orElse :: "string option \<Rightarrow> string option \<Rightarrow> string option" where
  "orElse x y = (if truthy x then x else y)"

text \<open>
  Modelled from the spec: the module \<^verbatim>\<open>./constants\<close> is not among the sources. The
  match policy is one of \<^verbatim>\<open>stop\<close> and \<^verbatim>\<open>canary\<close> (data model of the rule).
\<close>

definition MATCH_POLICY_STOP :: string where
  "MATCH_POLICY_STOP = ''stop''"

definition MATCH_POLICY_CANARY :: string where
  "MATCH_POLICY_CANARY = ''canary''"

text \<open>The object \<^verbatim>\<open>addRule\<close> pushes, and the state of a \<^verbatim>\<open>Config\<close>.\<close>

record rule =
  operation :: operation
  creditLimit :: jsvalue
  resetSeconds :: jsvalue
  actorField :: "string option"
  matchPolicy :: "string option"
  label :: "string option"
  comment :: "string option"

record config =
  rules :: "rule list"
  ruleLabels :: "string set"

definition Config_new :: config where
  "Config_new = \<lparr>rules = [], ruleLabels = {}\<rparr>"

subsection \<open>\<^verbatim>\<open>findRules\<close>\<close>

text \<open>
  Reading a property. \<^verbatim>\<open>operation[operationKey]\<close> is the own property of that
  name, a string; else the member of \<^verbatim>\<open>Object.prototype\<close> of that name, which is
  a function or, for \<^verbatim>\<open>__proto__\<close>, the prototype object; else \<^verbatim>\<open>undefined\<close>. An
  inherited value is given by the text that the conversion to a string makes of it, as
  Node.js renders it. It is never \<^verbatim>\<open>===\<close> to a string.
\<close>

datatype property = Undef | Str string | Inherited string

definition nativeFunction :: "string \<Rightarrow> string" where
  "nativeFunction name = ''function '' @ name @ ''() { [native code] }''"

definition Object_prototype :: "(string \<times> string) list" where
  "Object_prototype =
     [(''constructor'', nativeFunction ''Object''),
      (''__defineGetter__'', nativeFunction ''__defineGetter__''),
      (''__defineSetter__'', nativeFunction ''__defineSetter__''),
      (''hasOwnProperty'', nativeFunction ''hasOwnProperty''),
      (''__lookupGetter__'', nativeFunction ''__lookupGetter__''),
      (''__lookupSetter__'', nativeFunction ''__lookupSetter__''),
      (''isPrototypeOf'', nativeFunction ''isPrototypeOf''),
      (''propertyIsEnumerable'', nativeFunction ''propertyIsEnumerable''),
      (''toString'', nativeFunction ''toString''),
      (''valueOf'', nativeFunction ''valueOf''),
      (''__proto__'', ''[object Object]''),
      (''toLocaleString'', nativeFunction ''toLocaleString'')]"

definition getProperty :: "operation \<Rightarrow> string \<Rightarrow> property" where
  "getProperty op k =
     (case map_of op k of
        Some v \<Rightarrow> Str v
      | None \<Rightarrow>
          (case map_of Object_prototype k of Some t \<Rightarrow> Inherited t | None \<Rightarrow> Undef))"

text \<open>The property as the argument of \<^verbatim>\<open>test\<close>.\<close>

fun argumentOf :: "property \<Rightarrow> string option" where
  "argumentOf Undef = None"
| "argumentOf (Str s) = Some s"
| "argumentOf (Inherited t) = Some t"

text \<open>
  The inner loop over \<^verbatim>\<open>Object.keys(rule.operation)\<close>. The variable \<^verbatim>\<open>match\<close> is
  true at the start of each round, since the loop leaves as soon as it is false; the
  result is its value at the end, or the exception of \<^verbatim>\<open>parseGlob\<close>.
\<close>

fun matchKeys :: "operation \<Rightarrow> operation \<Rightarrow> error + bool" where
  "matchKeys [] op = Inr True"
| "matchKeys ((operationKey, operationValue) # rest) op =
     (if operationValue = ''*'' then matchKeys rest op
      else if isGlobValue operationValue then
        (case parseGlob operationValue of
           Inl e \<Rightarrow> Inl e
         | Inr re \<Rightarrow>
             if RegExp_test re (argumentOf (getProperty op operationKey))
             then matchKeys rest op
             else Inr False)
      else if Str operationValue \<noteq> getProperty op operationKey then Inr False
      else matchKeys rest op)"

text \<open>The outer loop over \<^verbatim>\<open>this.rules\<close>, with the array \<^verbatim>\<open>result\<close>.\<close>

fun findRulesFrom :: "rule list \<Rightarrow> operation \<Rightarrow> rule list \<Rightarrow> error + rule list" where
  "findRulesFrom [] op result = Inr result"
| "findRulesFrom (rule # rest) op result =
     (if \<not> truthy (matchPolicy rule) then Inl BugNoMatchPolicy
      else
        (case matchKeys (operation rule) op of
           Inl e \<Rightarrow> Inl e
         | Inr match \<Rightarrow>
             if match then
               (if matchPolicy rule = Some MATCH_POLICY_STOP then Inr (result @ [rule])
                else findRulesFrom rest op (result @ [rule]))
             else findRulesFrom rest op result))"

definition findRules :: "config \<Rightarrow> operation \<Rightarrow> error + rule list" where
  "findRules config op = findRulesFrom (rules config) op []"

subsection \<open>\<^verbatim>\<open>addRule\<close> and \<^verbatim>\<open>validate\<close>\<close>

text \<open>
  The argument of \<^verbatim>\<open>addRule\<close>, and equally a rule declaration read from a JSON
  file. \<open>None\<close> in \<open>spec_operation\<close> is a missing or falsy \<^verbatim>\<open>operation\<close>.
\<close>

record ruleSpec =
  spec_operation :: "operation option"
  spec_creditLimit :: jsvalue
  spec_resetSeconds :: jsvalue
  spec_actorField :: "string option"
  spec_matchPolicy :: "string option"
  spec_label :: "string option"
  spec_comment :: "string option"

text \<open>\<^verbatim>\<open>const RULE_LABEL_REGEX = /^[a-zA-Z0-9_-]{1,255}$/;\<close>\<close>

definition labelChar :: "char \<Rightarrow> bool" where
  "labelChar c =
     (let n = (of_char c :: nat) in
      (97 \<le> n \<and> n \<le> 122) \<or> (65 \<le> n \<and> n \<le> 90) \<or> (48 \<le> n \<and> n \<le> 57)
      \<or> c = CHR ''_'' \<or> c = CHR ''-'')"

definition RULE_LABEL_REGEX_test :: "string \<Rightarrow> bool" where
  "RULE_LABEL_REGEX_test l = (1 \<le> length l \<and> length l \<le> 255 \<and> list_all labelChar l)"

text \<open>
  The block \<^verbatim>\<open>if (label) { ... this.ruleLabels.add(label); }\<close>.
\<close>

definition checkLabel :: "string option \<Rightarrow> config \<Rightarrow> error + config" where
  "checkLabel l config =
     (case l of
        None \<Rightarrow> Inr config
      | Some s \<Rightarrow>
          if s = [] then Inr config
          else if \<not> RULE_LABEL_REGEX_test s then Inl (InvalidRuleLabel s)
          else if s \<in> ruleLabels config then Inl (DuplicateRuleLabel s)
          else Inr (config\<lparr>ruleLabels := insert s (ruleLabels config)\<rparr>))"

text \<open>The block \<^verbatim>\<open>if (matchPolicy) { switch (matchPolicy) ... }\<close>.\<close>

definition checkMatchPolicy :: "string option \<Rightarrow> error option" where
  "checkMatchPolicy p =
     (case p of
        None \<Rightarrow> None
      | Some s \<Rightarrow>
          if s = [] then None
          else if s = MATCH_POLICY_STOP \<or> s = MATCH_POLICY_CANARY then None
          else Some (InvalidMatchPolicy s))"

definition newRule :: "operation \<Rightarrow> ruleSpec \<Rightarrow> rule" where
  "newRule op spec =
     \<lparr>operation = op,
      creditLimit = spec_creditLimit spec,
      resetSeconds = spec_resetSeconds spec,
      actorField = orElse (spec_actorField spec) None,
      matchPolicy = orElse (spec_matchPolicy spec) (Some MATCH_POLICY_STOP),
      label = orElse (spec_label spec) None,
      comment = orElse (spec_comment spec) None\<rparr>"

text \<open>
  An operation inside a template literal, \<^verbatim>\<open>${operation}\<close>. The conversion to a
  string calls the method \<^verbatim>\<open>toString\<close>: that of \<^verbatim>\<open>Object.prototype\<close> returns
  \<^verbatim>\<open>[object Object]\<close>, whatever the object holds. An own property \<^verbatim>\<open>toString\<close>
  is a string and cannot be called; \<^verbatim>\<open>valueOf\<close> then yields no primitive value
  either, and the conversion throws a type error.
\<close>

definition renderOperation :: "operation \<Rightarrow> error + string" where
  "renderOperation op =
     (case map_of op ''toString'' of
        Some v \<Rightarrow> Inl TypeError
      | None \<Rightarrow> Inr ''[object Object]'')"

text \<open>
  The error
  \<^verbatim>\<open>new Error(`Unreachable rule for operation=${operation}; masked by operation=${firstFoundRule.operation}`)\<close>,
  and an error whose message starts \<^verbatim>\<open>... for operation=${operation}\<close>.
\<close>

definition unreachableError :: "operation \<Rightarrow> operation \<Rightarrow> error" where
  "unreachableError op masking =
     (case renderOperation op of
        Inl e \<Rightarrow> e
      | Inr a \<Rightarrow>
          (case renderOperation masking of
             Inl e \<Rightarrow> e
           | Inr b \<Rightarrow> UnreachableRule a b))"

definition forOperation :: "operation \<Rightarrow> error \<Rightarrow> error" where
  "forOperation op err = (case renderOperation op of Inl e \<Rightarrow> e | Inr a \<Rightarrow> err)"

text \<open>
  \<^verbatim>\<open>addRule\<close>. The label is recorded before the match policy is checked, so a call
  that fails on the match policy leaves the label in \<^verbatim>\<open>ruleLabels\<close>.
\<close>

definition addRule :: "ruleSpec \<Rightarrow> config \<Rightarrow> error option \<times> config" where
  "addRule spec config =
     (case spec_operation spec of
        None \<Rightarrow> (Some OperationMustBeSpecified, config)
      | Some op \<Rightarrow>
          (case findRules config op of
             Inl e \<Rightarrow> (Some e, config)
           | Inr found \<Rightarrow>
               (case find (\<lambda>r. matchPolicy r = Some MATCH_POLICY_STOP) found of
                  Some firstFoundRule \<Rightarrow>
                    (Some (unreachableError op (operation firstFoundRule)), config)
                | None \<Rightarrow>
                    if isNaN_Number (spec_creditLimit spec) \<or> jsLess (spec_creditLimit spec) 0
                    then (Some (forOperation op InvalidCreditLimit), config)
                    else if jsGreater (spec_creditLimit spec) 0
                         \<and> (isNaN_Number (spec_resetSeconds spec)
                              \<or> jsLess (spec_resetSeconds spec) 1)
                    then (Some (forOperation op InvalidResetSeconds), config)
                    else
                      (case checkLabel (spec_label spec) config of
                         Inl e \<Rightarrow> (Some e, config)
                       | Inr config1 \<Rightarrow>
                           (case checkMatchPolicy (spec_matchPolicy spec) of
                              Some e \<Rightarrow> (Some e, config1)
                            | None \<Rightarrow>
                                (None, config1\<lparr>rules := rules config1 @ [newRule op spec]\<rparr>))))))"

definition validate :: "config \<Rightarrow> error option" where
  "validate config =
     (if rules config = [] then Some ConfigNoRules
      else if operation (last (rules config)) \<noteq> [] then Some ConfigNoDefaultRule
      else None)"

subsection \<open>The loaders\<close>

text \<open>
  The loop \<^verbatim>\<open>forEach(function (rule) { config.addRule({...}); })\<close>: the first exception
  ends it.
\<close>

fun addRules :: "ruleSpec list \<Rightarrow> config \<Rightarrow> error option \<times> config" where
  "addRules [] config = (None, config)"
| "addRules (spec # specs) config =
     (case addRule spec config of
        (Some e, config1) \<Rightarrow> (Some e, config1)
      | (None, config1) \<Rightarrow> addRules specs config1)"

text \<open>
  Modelled from the spec: the module \<^verbatim>\<open>./utils\<close> with \<^verbatim>\<open>stringifyObjectValues\<close> is
  not among the sources. A declaration designated as default has no \<^verbatim>\<open>operation\<close>
  field and denotes the empty pattern; the values of a pattern are strings, which the
  conversion to strings leaves as they are.
\<close>

definition stringifyObjectValues :: "operation option \<Rightarrow> operation" where
  "stringifyObjectValues x = (case x of None \<Rightarrow> [] | Some op \<Rightarrow> op)"

definition loaderSpec :: "ruleSpec \<Rightarrow> ruleSpec" where
  "loaderSpec r = r\<lparr>spec_operation := Some (stringifyObjectValues (spec_operation r))\<rparr>"

text \<open>
  The content of a JSON configuration file as \<^verbatim>\<open>JSON.parse\<close> returns it:
  \<open>overrides\<close> is \<open>None\<close> when the file has no such array, \<open>defaultRule\<close> is
  \<^verbatim>\<open>rawConfig.default\<close> when \<^verbatim>\<open>typeof rawConfig.default === 'object'\<close>
  (a default that is \<^verbatim>\<open>null\<close> is not modelled).
\<close>

record rawConfig =
  overrides :: "ruleSpec list option"
  defaultRule :: "ruleSpec option"

text \<open>
  \<^verbatim>\<open>rawConfig.overrides.push(rawConfig.default)\<close> under its guard; the method call on
  \<^verbatim>\<open>undefined\<close> is a type error.
\<close>

definition pushDefault :: "rawConfig \<Rightarrow> error + rawConfig" where
  "pushDefault rawConfig =
     (case defaultRule rawConfig of
        None \<Rightarrow> Inr rawConfig
      | Some d \<Rightarrow>
          (case overrides rawConfig of
             None \<Rightarrow> Inl TypeError
           | Some l \<Rightarrow> Inr (rawConfig\<lparr>overrides := Some (l @ [d])\<rparr>)))"

text \<open>\<^verbatim>\<open>(rawConfig.overrides || []).forEach(...)\<close> followed by \<^verbatim>\<open>config.validate()\<close>.\<close>

definition addOverrides :: "rawConfig \<Rightarrow> config \<Rightarrow> error option \<times> config" where
  "addOverrides rawConfig config =
     (case addRules (map loaderSpec (case overrides rawConfig of None \<Rightarrow> [] | Some l \<Rightarrow> l))
             config of
        (Some e, config1) \<Rightarrow> (Some e, config1)
      | (None, config1) \<Rightarrow> (validate config1, config1))"

text \<open>
  \<^verbatim>\<open>fromJsonFile\<close>, given what \<^verbatim>\<open>JSON.parse(fs.readFileSync(filename))\<close> returns. The
  connection to the coordination service, made when \<^verbatim>\<open>ZK_ENABLED_FOR_AUX_RULES\<close> is
  set, acts later through \<^verbatim>\<open>processNewRules\<close>.
\<close>

definition fromJsonFile :: "rawConfig \<Rightarrow> error + config" where
  "fromJsonFile rawConfig =
     (case pushDefault rawConfig of
        Inl e \<Rightarrow> Inl e
      | Inr rawConfig1 \<Rightarrow>
          (case addOverrides rawConfig1 Config_new of
             (Some e, config) \<Rightarrow> Inl e
           | (None, config) \<Rightarrow> Inr config))"

text \<open>
  \<^verbatim>\<open>fromIniFile\<close>, given the sections of the file in the order of
  \<^verbatim>\<open>Object.keys(rawConfig)\<close>. A section carries the operation that
  \<^verbatim>\<open>Config.stringToOperation\<close> makes of its name, the two numbers that \<^verbatim>\<open>parseInt\<close>
  returns, and its optional fields.
\<close>

record iniSection =
  ini_operation :: operation
  ini_creditLimit :: jsvalue
  ini_resetSeconds :: jsvalue
  ini_actorField :: "string option"
  ini_matchPolicy :: "string option"
  ini_comment :: "string option"
  ini_label :: "string option"

definition iniSpec :: "iniSection \<Rightarrow> ruleSpec" where
  "iniSpec g =
     \<lparr>spec_operation = Some (ini_operation g),
      spec_creditLimit = ini_creditLimit g,
      spec_resetSeconds = ini_resetSeconds g,
      spec_actorField = orElse (ini_actorField g) (Some []),
      spec_matchPolicy = orElse (ini_matchPolicy g) (Some []),
      spec_label = orElse (ini_label g) (Some []),
      spec_comment = orElse (ini_comment g) (Some [])\<rparr>"

definition fromIniFile :: "iniSection list \<Rightarrow> error + config" where
  "fromIniFile sections =
     (case addRules (map iniSpec sections) Config_new of
        (Some e, config) \<Rightarrow> Inl e
      | (None, config) \<Rightarrow>
          (case validate config of Some e \<Rightarrow> Inl e | None \<Rightarrow> Inr config))"

text \<open>
  \<^verbatim>\<open>processNewRules(rules, config)\<close>. Its inputs are whether the extension of
  \<^verbatim>\<open>process.argv[2]\<close> is \<^verbatim>\<open>.ini\<close>, what \<^verbatim>\<open>JSON.parse\<close> makes of the static file
  and what it makes of the data fetched from the coordination service (an exception or
  a value each). The rules and labels of the live configuration are reset after the
  static file is parsed and before anything else. Each fetched rule is put in front
  of the overrides by \<^verbatim>\<open>unshift\<close>, one after the other.
\<close>

definition unshiftAll :: "ruleSpec list \<Rightarrow> rawConfig \<Rightarrow> error + rawConfig" where
  "unshiftAll fetched rawConfig =
     (if fetched = [] then Inr rawConfig
      else
        (case overrides rawConfig of
           None \<Rightarrow> Inl TypeError
         | Some l \<Rightarrow> Inr (rawConfig\<lparr>overrides := Some (rev fetched @ l)\<rparr>)))"

definition processNewRules ::
  "bool \<Rightarrow> error + rawConfig \<Rightarrow> error + ruleSpec list \<Rightarrow> config \<Rightarrow> error option \<times> config" where
  "processNewRules isIni parsedFile parsedRules config =
     (if isIni then (None, config)
      else
        (case parsedFile of
           Inl e \<Rightarrow> (Some e, config)
         | Inr rawConfig \<Rightarrow>
             (let config0 = config\<lparr>rules := [], ruleLabels := {}\<rparr> in
              case parsedRules of
                Inl e \<Rightarrow> (Some e, config0)
              | Inr fetched \<Rightarrow>
                  (case unshiftAll fetched rawConfig of
                     Inl e \<Rightarrow> (Some e, config0)
                   | Inr rawConfig1 \<Rightarrow>
                       (case pushDefault rawConfig1 of
                          Inl e \<Rightarrow> (Some e, config0)
                        | Inr rawConfig2 \<Rightarrow> addOverrides rawConfig2 config0)))))"

subsection \<open>\<^verbatim>\<open>toJson\<close>\<close>

text \<open>
  The object \<^verbatim>\<open>data\<close> that \<^verbatim>\<open>toJson\<close> hands to \<^verbatim>\<open>JSON.stringify\<close>: every rule with
  an empty operation is assigned to \<^verbatim>\<open>data.default\<close>, the last one staying.
\<close>

record jsonData =
  data_overrides :: "rule list"
  data_default :: "rule option"

fun toJsonFrom :: "rule list \<Rightarrow> jsonData \<Rightarrow> jsonData" where
  "toJsonFrom [] d = d"
| "toJsonFrom (r # rest) d =
     (if operation r = [] then toJsonFrom rest (d\<lparr>data_default := Some r\<rparr>)
      else toJsonFrom rest (d\<lparr>data_overrides := data_overrides d @ [r]\<rparr>))"

definition toJsonData :: "config \<Rightarrow> jsonData" where
  "toJsonData config = toJsonFrom (rules config) \<lparr>data_overrides = [], data_default = None\<rparr>"

text \<open>
  \<^verbatim>\<open>JSON.stringify\<close> and \<^verbatim>\<open>JSON.parse\<close> belong to the language. The text that
  \<^verbatim>\<open>toJson\<close> returns is represented by what \<^verbatim>\<open>JSON.parse\<close> reads back from it:
  \<^verbatim>\<open>JSON.stringify\<close> writes \<^verbatim>\<open>NaN\<close>, \<^verbatim>\<open>Infinity\<close> and \<^verbatim>\<open>-Infinity\<close> as
  \<^verbatim>\<open>null\<close> and leaves out a property that is \<^verbatim>\<open>undefined\<close>; strings,
  \<^verbatim>\<open>null\<close>, finite numbers and the order of the keys are kept.
\<close>

fun jsonValue :: "jsvalue \<Rightarrow> jsvalue" where
  "jsonValue NaN = Null"
| "jsonValue Infinity = Null"
| "jsonValue NegInfinity = Null"
| "jsonValue v = v"

definition jsonRule :: "rule \<Rightarrow> ruleSpec" where
  "jsonRule r =
     \<lparr>spec_operation = Some (operation r),
      spec_creditLimit = jsonValue (creditLimit r),
      spec_resetSeconds = jsonValue (resetSeconds r),
      spec_actorField = actorField r,
      spec_matchPolicy = matchPolicy r,
      spec_label = label r,
      spec_comment = comment r\<rparr>"

definition JSON_parse_stringify :: "jsonData \<Rightarrow> rawConfig" where
  "JSON_parse_stringify d =
     \<lparr>overrides = Some (map jsonRule (data_overrides d)),
      defaultRule = map_option jsonRule (data_default d)\<rparr>"

definition toJson :: "config \<Rightarrow> rawConfig" where
  "toJson config = JSON_parse_stringify (toJsonData config)"

subsection \<open>Auxiliary notions for the statements\<close>

text \<open>
  \<open>literally p\<close> is the expression that matches the characters of \<open>p\<close> one by one.
  \<open>litPieces q\<close> is what the constructor makes of the escaped form of \<open>q\<close>, read
  off \<open>q\<close> itself: every character is a literal, and a \<^verbatim>\<open>*\<close> quantifies the
  literal before it (lemma \<open>parsePieces_escapeRegex\<close>). \<open>adjacentStars v\<close> says that
  some \<^verbatim>\<open>*\<close> of \<open>v\<close> directly follows another.
\<close>

definition literally :: "string \<Rightarrow> regexp" where
  "literally p = map (\<lambda>c. Once (Lit c)) p"

fun litPieces :: "string \<Rightarrow> error + regexp" where
  "litPieces [] = Inr []"
| "litPieces [c] = (if c = CHR ''*'' then Inl RegExpNothingToRepeat else Inr [Once (Lit c)])"
| "litPieces (c # d # cs) =
     (if c = CHR ''*'' then Inl RegExpNothingToRepeat
      else if d = CHR ''*'' then quantified (Lit c) True (litPieces cs)
      else quantified (Lit c) False (litPieces (d # cs)))"

fun adjacentStars :: "string \<Rightarrow> bool" where
  "adjacentStars [] = False"
| "adjacentStars [c] = False"
| "adjacentStars (c # d # cs) = ((c = CHR ''*'' \<and> d = CHR ''*'') \<or> adjacentStars (d # cs))"

text \<open>A rule with the given pattern and match policy, for the examples.\<close>

definition exampleRule :: "operation \<Rightarrow> string \<Rightarrow> rule" where
  "exampleRule op policy =
     \<lparr>operation = op, creditLimit = Num 1, resetSeconds = Num 1, actorField = None,
      matchPolicy = Some policy, label = None, comment = None\<rparr>"

text \<open>
  The configurations that can arise from \<^verbatim>\<open>new Config()\<close> (or from the reset in
  \<^verbatim>\<open>processNewRules\<close>) by calls of \<^verbatim>\<open>addRule\<close>, whether they return or throw.
\<close>

inductive built :: "config \<Rightarrow> bool" where
  new: "built Config_new"
| add: "built config \<Longrightarrow> addRule spec config = (e, config1) \<Longrightarrow> built config1"


text \<open>A declaration with the given pattern and match policy, for the examples.\<close>

definition exampleSpec :: "operation option \<Rightarrow> string option \<Rightarrow> ruleSpec" where
  "exampleSpec op policy =
     \<lparr>spec_operation = op, spec_creditLimit = Num 1, spec_resetSeconds = Num 1,
      spec_actorField = None, spec_matchPolicy = policy, spec_label = None,
      spec_comment = None\<rparr>"

text \<open>
  A rule as it comes back from its JSON text: a \<^verbatim>\<open>creditLimit\<close> or
  \<^verbatim>\<open>resetSeconds\<close> that was \<^verbatim>\<open>NaN\<close> or infinite has become \<^verbatim>\<open>null\<close>,
  everything else is as it was. \<open>finitePositive v\<close> says that \<open>v\<close> is a finite
  number above 0.
\<close>

definition jsonReloaded :: "rule \<Rightarrow> rule" where
  "jsonReloaded r =
     r\<lparr>creditLimit := jsonValue (creditLimit r), resetSeconds := jsonValue (resetSeconds r)\<rparr>"

definition finitePositive :: "jsvalue \<Rightarrow> bool" where
  "finitePositive v = (case v of Num q \<Rightarrow> 0 < q | _ \<Rightarrow> False)"

section \<open>Properties\<close>

subsection \<open>Reading a property\<close>

lemma getProperty_Cons [simp]:
  "getProperty ((k1, v) # op) k = (if k = k1 then Str v else getProperty op k)"
  by (simp add: getProperty_def)

lemma getProperty_Undef:
  "getProperty op k = Undef \<longleftrightarrow> map_of op k = None \<and> map_of Object_prototype k = None"
  by (simp add: getProperty_def split: option.splits)

lemma getProperty_Inherited:
  "getProperty op k = Inherited t
   \<longleftrightarrow> map_of op k = None \<and> map_of Object_prototype k = Some t"
  by (simp add: getProperty_def split: option.splits)

subsection \<open>The glob compiler\<close>

lemma escapeRegex_append: "escapeRegex (p @ q) = escapeRegex p @ escapeRegex q"
  by (induction p) auto

lemma star_not_escaped: "CHR ''*'' \<notin> set REGEX_ESCAPE_CHARACTERS"
  by (simp add: REGEX_ESCAPE_CHARACTERS_def backslash_def)

lemma parsePieces_escapeRegex: "parsePieces (escapeRegex q) = litPieces q"
proof (induction q rule: litPieces.induct)
  case 1
  then show ?case by simp
next
  case (2 c)
  then show ?case
    by (auto simp: REGEX_ESCAPE_CHARACTERS_def syntaxCharacters_def backslash_def)
next
  case (3 c d cs)
  then show ?case
    by (auto simp: REGEX_ESCAPE_CHARACTERS_def syntaxCharacters_def backslash_def)
qed

lemma replaceFirstStar_append:
  assumes "CHR ''*'' \<notin> set s"
  shows "replaceFirstStar (s @ CHR ''*'' # t) = s @ CHR ''.'' # CHR ''*'' # t"
  using assms by (induction s) auto

lemma replaceFirstStar_none:
  assumes "CHR ''*'' \<notin> set s"
  shows "replaceFirstStar s = s"
  using assms by (induction s) auto

lemma star_escapeRegex: "CHR ''*'' \<in> set (escapeRegex p) \<longleftrightarrow> CHR ''*'' \<in> set p"
  by (induction p) (auto simp: backslash_def)

lemma globSource_split:
  assumes "CHR ''*'' \<notin> set p"
  shows "globSource (p @ CHR ''*'' # q)
         = CHR ''^'' # escapeRegex p @ CHR ''.'' # CHR ''*'' # escapeRegex q"
  using assms
  by (simp add: globSource_def escapeRegex_append star_not_escaped star_escapeRegex
      replaceFirstStar_append)

lemma litPieces_literally:
  assumes "CHR ''*'' \<notin> set q"
  shows "litPieces q = Inr (literally q)"
  using assms
  by (induction q rule: litPieces.induct) (auto simp: literally_def quantified_def)

lemma escapeRegex_head:
  assumes "CHR ''*'' \<notin> set p"
  shows "\<exists>e es. escapeRegex p @ CHR ''.'' # t = e # es \<and> e \<noteq> CHR ''*''"
proof (cases p)
  case Nil
  then show ?thesis by simp
next
  case (Cons a list)
  show ?thesis
  proof (cases "a \<in> set REGEX_ESCAPE_CHARACTERS")
    case True
    then show ?thesis using Cons by (simp add: backslash_def)
  next
    case False
    then show ?thesis using Cons assms by auto
  qed
qed

lemma parsePieces_literal_prefix:
  assumes "CHR ''*'' \<notin> set p"
  shows "parsePieces (escapeRegex p @ CHR ''.'' # CHR ''*'' # s)
         = (case parsePieces s of Inl e \<Rightarrow> Inl e
            | Inr ps \<Rightarrow> Inr (literally p @ Many AnyChar # ps))"
  using assms
proof (induction p)
  case Nil
  then show ?case by (simp add: literally_def quantified_def backslash_def split: sum.splits)
next
  case (Cons c p)
  obtain e es where rest: "escapeRegex p @ CHR ''.'' # CHR ''*'' # s = e # es" and "e \<noteq> CHR ''*''"
    using Cons.prems escapeRegex_head [of p "CHR ''*'' # s"] by auto
  have ih: "parsePieces (e # es)
         = (case parsePieces s of Inl e \<Rightarrow> Inl e
            | Inr ps \<Rightarrow> Inr (literally p @ Many AnyChar # ps))"
    using Cons rest by simp
  have "parsePieces (escapeRegex (c # p) @ CHR ''.'' # CHR ''*'' # s)
        = quantified (Lit c) False (parsePieces (e # es))"
    using Cons.prems \<open>e \<noteq> CHR ''*''\<close> unfolding escapeRegex.simps
    by (cases es)
      (auto simp: rest REGEX_ESCAPE_CHARACTERS_def syntaxCharacters_def backslash_def)
  then show ?case
    by (simp add: ih quantified_def literally_def split: sum.splits)
qed

lemma parseGlob_split:
  assumes "CHR ''*'' \<notin> set p"
  shows "parseGlob (p @ CHR ''*'' # q)
         = (case litPieces q of Inl e \<Rightarrow> Inl e
            | Inr ps \<Rightarrow> Inr (literally p @ Many AnyChar # ps))"
  using assms
  by (simp add: parseGlob_def RegExp_new_def globSource_split parsePieces_literal_prefix
      parsePieces_escapeRegex)

lemma parseGlob_no_star:
  assumes "CHR ''*'' \<notin> set v"
  shows "parseGlob v = Inr (literally v)"
  using assms
  by (simp add: parseGlob_def RegExp_new_def globSource_def star_escapeRegex
      replaceFirstStar_none parsePieces_escapeRegex litPieces_literally)

lemma litPieces_error:
  assumes "litPieces q = Inl e"
  shows "e = RegExpNothingToRepeat"
  using assms
  by (induction q rule: litPieces.induct) (auto simp: quantified_def split: if_splits sum.splits)

lemma litPieces_adjacent:
  "(\<exists>ps. litPieces q = Inr ps) \<longleftrightarrow> \<not> adjacentStars (CHR ''*'' # q)"
  by (induction q rule: litPieces.induct) (auto simp: quantified_def split: sum.splits)

lemma split_first_star:
  assumes "CHR ''*'' \<in> set v"
  obtains p q where "v = p @ CHR ''*'' # q" and "CHR ''*'' \<notin> set p"
  using assms split_list_first by metis

lemma adjacentStars_prefix:
  assumes "CHR ''*'' \<notin> set p"
  shows "adjacentStars (p @ CHR ''*'' # q) = adjacentStars (CHR ''*'' # q)"
  using assms
proof (induction p rule: adjacentStars.induct)
  case 1
  then show ?case by simp
next
  case (2 c)
  then show ?case by simp
next
  case (3 c d cs)
  then show ?case by auto
qed


lemma parseGlob_error:
  assumes "parseGlob v = Inl e"
  shows "e = RegExpNothingToRepeat"
proof (cases "CHR ''*'' \<in> set v")
  case True
  then obtain p q where "v = p @ CHR ''*'' # q" "CHR ''*'' \<notin> set p"
    by (rule split_first_star)
  with assms show ?thesis
    by (auto simp: parseGlob_split split: sum.splits dest: litPieces_error)
next
  case False
  with assms show ?thesis by (simp add: parseGlob_no_star)
qed

lemma parseGlob_modelled: "parseGlob v \<noteq> Inl RegExpUnmodelled"
  using parseGlob_error by fastforce


lemma matchesPrefix_literally:
  "matchesPrefix (literally p @ ps) x \<longleftrightarrow> (\<exists>rest. x = p @ rest \<and> matchesPrefix ps rest)"
proof (induction p arbitrary: x)
  case Nil
  then show ?case by (simp add: literally_def)
next
  case (Cons c p)
  then show ?case by (cases x) (auto simp: literally_def)
qed

lemma matchesPrefix_Many:
  "matchesPrefix (Many a # ps) x
   \<longleftrightarrow> (\<exists>mid rest. x = mid @ rest \<and> (\<forall>c\<in>set mid. atomMatches a c) \<and> matchesPrefix ps rest)"
proof (induction x)
  case Nil
  then show ?case by simp
next
  case (Cons c x)
  show ?case
  proof
    assume "matchesPrefix (Many a # ps) (c # x)"
    then consider "atomMatches a c" "matchesPrefix (Many a # ps) x" | "matchesPrefix ps (c # x)"
      by auto
    then show "\<exists>mid rest. c # x = mid @ rest \<and> (\<forall>c\<in>set mid. atomMatches a c) \<and> matchesPrefix ps rest"
    proof cases
      case 1
      then obtain mid rest where "x = mid @ rest" "\<forall>c\<in>set mid. atomMatches a c" "matchesPrefix ps rest"
        using Cons.IH by auto
      then have "c # x = (c # mid) @ rest \<and> (\<forall>d\<in>set (c # mid). atomMatches a d) \<and> matchesPrefix ps rest"
        using 1 by simp
      then show ?thesis by blast
    next
      case 2
      then have "c # x = [] @ (c # x) \<and> (\<forall>d\<in>set []. atomMatches a d) \<and> matchesPrefix ps (c # x)"
        by simp
      then show ?thesis by blast
    qed
  next
    assume "\<exists>mid rest. c # x = mid @ rest \<and> (\<forall>c\<in>set mid. atomMatches a c) \<and> matchesPrefix ps rest"
    then obtain mid rest where m: "c # x = mid @ rest" "\<forall>c\<in>set mid. atomMatches a c" "matchesPrefix ps rest"
      by blast
    show "matchesPrefix (Many a # ps) (c # x)"
    proof (cases mid)
      case Nil
      with m have "matchesPrefix ps (c # x)" by simp
      then show ?thesis by simp
    next
      case (Cons d mid')
      then have "x = mid' @ rest" "c = d" using m by auto
      then show ?thesis using m Cons Cons.IH by auto
    qed
  qed
qed

lemma matchesPrefix_append:
  assumes "matchesPrefix re x"
  shows "matchesPrefix re (x @ y)"
  using assms
proof (induction re x rule: matchesPrefix.induct)
  case (1 s)
  then show ?case by simp
next
  case (2 a ps)
  then show ?case by simp
next
  case (3 a ps c s)
  then show ?case by simp
next
  case (4 a ps)
  then have "matchesPrefix ps y" by simp
  then show ?case by (cases y) auto
next
  case (5 a ps c s)
  then show ?case by auto
qed

lemma RegExp_test_first_star:
  "RegExp_test (literally p @ Many AnyChar # ps) (Some x)
   \<longleftrightarrow> (\<exists>mid rest. x = p @ mid @ rest \<and> (\<forall>d\<in>set mid. \<not> lineTerminator d)
         \<and> matchesPrefix ps rest)"
  by (auto simp: RegExp_test_def toStringArg_def matchesPrefix_literally matchesPrefix_Many)

lemma matchesPrefix_literally_only:
  "matchesPrefix (literally q) rest \<longleftrightarrow> (\<exists>t. rest = q @ t)"
  using matchesPrefix_literally [of q "[]" rest] by simp

subsection \<open>What a glob matches\<close>

text \<open>
  C3, as amended. Let the pattern-value \<open>v\<close> contain a \<^verbatim>\<open>*\<close>, and let no \<^verbatim>\<open>*\<close> of
  \<open>v\<close> directly follow another. Write \<open>v\<close> as \<open>p\<close>, its first \<^verbatim>\<open>*\<close>, and
  \<open>q\<close>. Then the source of the expression is \<^verbatim>\<open>^\<close>, the escaped \<open>p\<close>, \<^verbatim>\<open>.*\<close>
  and the escaped \<open>q\<close>; \<^verbatim>\<open>parseGlob\<close> returns the matcher that takes the characters
  of \<open>p\<close> literally, then any run of characters other than line terminators, then
  what \<open>q\<close> compiles to; when \<open>q\<close> has no \<^verbatim>\<open>*\<close>, a value matches exactly when it
  is \<open>p\<close>, such a run, \<open>q\<close> and anything after. The matcher is anchored at the
  start only: a value that matches still matches with anything appended. Every syntax
  character of regular expressions other than \<^verbatim>\<open>*\<close> is escaped. The pattern
  \<^verbatim>\<open>/files/*\<close> matches the values \<^verbatim>\<open>/files/readme.txt\<close> and \<^verbatim>\<open>/files/\<close>.
\<close>

theorem parseGlob_prefix_match:
  assumes "CHR ''*'' \<in> set v" and "\<not> adjacentStars v"
  shows "(\<exists>p q ps. v = p @ CHR ''*'' # q \<and> CHR ''*'' \<notin> set p
            \<and> globSource v = CHR ''^'' # escapeRegex p @ ''.*'' @ escapeRegex q
            \<and> litPieces q = Inr ps
            \<and> parseGlob v = Inr (literally p @ Many AnyChar # ps)
            \<and> (\<forall>x. RegExp_test (literally p @ Many AnyChar # ps) (Some x)
                  \<longleftrightarrow> (\<exists>mid rest. x = p @ mid @ rest
                        \<and> (\<forall>d\<in>set mid. \<not> lineTerminator d) \<and> matchesPrefix ps rest))
            \<and> (CHR ''*'' \<notin> set q \<longrightarrow>
                 (\<forall>x. RegExp_test (literally p @ Many AnyChar # ps) (Some x)
                  \<longleftrightarrow> (\<exists>mid rest. x = p @ mid @ q @ rest
                        \<and> (\<forall>d\<in>set mid. \<not> lineTerminator d)))))
       \<and> (\<forall>re x y. parseGlob v = Inr re \<and> RegExp_test re (Some x)
             \<longrightarrow> RegExp_test re (Some (x @ y)))
       \<and> (\<forall>c\<in>set syntaxCharacters. c \<noteq> CHR ''*'' \<longrightarrow> escapeRegex [c] = [backslash, c])
       \<and> matchKeys [(k, ''/files/*'')] [(k, ''/files/readme.txt'')] = Inr True
       \<and> matchKeys [(k, ''/files/*'')] [(k, ''/files/'')] = Inr True"
proof -
  obtain p q where v: "v = p @ CHR ''*'' # q" "CHR ''*'' \<notin> set p"
    using assms(1) by (rule split_first_star)
  have "\<not> adjacentStars (CHR ''*'' # q)"
    using assms(2) v by (simp add: adjacentStars_prefix)
  then obtain ps where ps: "litPieces q = Inr ps"
    using litPieces_adjacent by blast
  have src: "globSource v = CHR ''^'' # escapeRegex p @ ''.*'' @ escapeRegex q"
    using v by (simp add: globSource_split)
  have re: "parseGlob v = Inr (literally p @ Many AnyChar # ps)"
    using v ps by (simp add: parseGlob_split)
  have sem: "\<forall>x. RegExp_test (literally p @ Many AnyChar # ps) (Some x)
                  \<longleftrightarrow> (\<exists>mid rest. x = p @ mid @ rest
                        \<and> (\<forall>d\<in>set mid. \<not> lineTerminator d) \<and> matchesPrefix ps rest)"
    by (simp add: RegExp_test_first_star)
  have lit: "CHR ''*'' \<notin> set q \<longrightarrow>
                 (\<forall>x. RegExp_test (literally p @ Many AnyChar # ps) (Some x)
                  \<longleftrightarrow> (\<exists>mid rest. x = p @ mid @ q @ rest
                        \<and> (\<forall>d\<in>set mid. \<not> lineTerminator d)))"
  proof
    assume "CHR ''*'' \<notin> set q"
    then have "ps = literally q" using ps by (simp add: litPieces_literally)
    moreover have "\<forall>x. RegExp_test (literally p @ Many AnyChar # literally q) (Some x)
                  \<longleftrightarrow> (\<exists>mid rest. x = p @ mid @ q @ rest
                        \<and> (\<forall>d\<in>set mid. \<not> lineTerminator d))"
      unfolding RegExp_test_first_star matchesPrefix_literally_only by blast
    ultimately show "\<forall>x. RegExp_test (literally p @ Many AnyChar # ps) (Some x)
                  \<longleftrightarrow> (\<exists>mid rest. x = p @ mid @ q @ rest
                        \<and> (\<forall>d\<in>set mid. \<not> lineTerminator d))"
      by simp
  qed
  have first: "\<exists>p q ps. v = p @ CHR ''*'' # q \<and> CHR ''*'' \<notin> set p
            \<and> globSource v = CHR ''^'' # escapeRegex p @ ''.*'' @ escapeRegex q
            \<and> litPieces q = Inr ps
            \<and> parseGlob v = Inr (literally p @ Many AnyChar # ps)
            \<and> (\<forall>x. RegExp_test (literally p @ Many AnyChar # ps) (Some x)
                  \<longleftrightarrow> (\<exists>mid rest. x = p @ mid @ rest
                        \<and> (\<forall>d\<in>set mid. \<not> lineTerminator d) \<and> matchesPrefix ps rest))
            \<and> (CHR ''*'' \<notin> set q \<longrightarrow>
                 (\<forall>x. RegExp_test (literally p @ Many AnyChar # ps) (Some x)
                  \<longleftrightarrow> (\<exists>mid rest. x = p @ mid @ q @ rest
                        \<and> (\<forall>d\<in>set mid. \<not> lineTerminator d))))"
    using v src ps re sem lit by blast
  have anchor: "\<forall>re x y. parseGlob v = Inr re \<and> RegExp_test re (Some x)
             \<longrightarrow> RegExp_test re (Some (x @ y))"
    by (simp add: RegExp_test_def toStringArg_def matchesPrefix_append)
  have esc: "\<forall>c\<in>set syntaxCharacters. c \<noteq> CHR ''*'' \<longrightarrow> escapeRegex [c] = [backslash, c]"
    by (simp add: syntaxCharacters_def REGEX_ESCAPE_CHARACTERS_def backslash_def)
  have files: "parseGlob ''/files/*'' = Inr (literally ''/files/'' @ [Many AnyChar])"
    using parseGlob_split [of "''/files/''" "[]"] by simp
  have ex1: "matchKeys [(k, ''/files/*'')] [(k, ''/files/readme.txt'')] = Inr True"
    by (simp add: isGlobValue_def files RegExp_test_def toStringArg_def literally_def)
  have ex2: "matchKeys [(k, ''/files/*'')] [(k, ''/files/'')] = Inr True"
    by (simp add: isGlobValue_def files RegExp_test_def toStringArg_def literally_def)
  from first anchor esc ex1 ex2 show ?thesis by blast
qed

theorem parseGlob_prefix_match_witness:
  "CHR ''*'' \<in> set ''/files/*'' \<and> \<not> adjacentStars ''/files/*''
   \<and> parseGlob ''/files/*'' = Inr (literally ''/files/'' @ [Many AnyChar])
   \<and> matchKeys [(''path'', ''/files/*'')] [(''path'', ''/files/readme.txt'')] = Inr True
   \<and> matchKeys [(''path'', ''/files/*'')] [(''path'', ''/files/'')] = Inr True
   \<and> matchKeys [(''path'', ''/files/*'')] [(''path'', ''/files'')] = Inr False"
proof -
  have h1: "CHR ''*'' \<in> set ''/files/*''" by simp
  have h2: "\<not> adjacentStars ''/files/*''" by simp
  have ex: "matchKeys [(''path'', ''/files/*'')] [(''path'', ''/files/readme.txt'')] = Inr True
        \<and> matchKeys [(''path'', ''/files/*'')] [(''path'', ''/files/'')] = Inr True"
    by (rule parseGlob_prefix_match
        [OF h1 h2, of "''path''", THEN conjunct2, THEN conjunct2, THEN conjunct2])
  have re: "parseGlob ''/files/*'' = Inr (literally ''/files/'' @ [Many AnyChar])"
    using parseGlob_split [of "''/files/''" "[]"] by simp
  have no: "matchKeys [(''path'', ''/files/*'')] [(''path'', ''/files'')] = Inr False"
    by (simp add: isGlobValue_def re RegExp_test_def toStringArg_def literally_def)
  from h1 h2 re ex no show ?thesis by simp
qed

text \<open>
  The claim as it was stated fails twice. The first \<^verbatim>\<open>*\<close> does not stand for any
  characters: in the value \<^verbatim>\<open>a\<close>, line feed, \<^verbatim>\<open>b\<close> the pattern \<^verbatim>\<open>a*b\<close> finds no
  match, while it matches \<^verbatim>\<open>a-b\<close>. And a pattern-value with a \<^verbatim>\<open>*\<close> need not have a
  compiled matcher: for \<^verbatim>\<open>**\<close> the constructor throws.
\<close>

theorem parseGlob_any_characters_counterexample:
  "matchKeys [(''k'', ''a*b'')] [(''k'', [CHR ''a'', CHR 0x0A, CHR ''b''])] = Inr False
   \<and> matchKeys [(''k'', ''a*b'')] [(''k'', ''a-b'')] = Inr True
   \<and> parseGlob ''**'' = Inl RegExpNothingToRepeat"
proof -
  have re: "parseGlob ''a*b'' = Inr [Once (Lit CHR ''a''), Many AnyChar, Once (Lit CHR ''b'')]"
    using parseGlob_split [of "''a''" "''b''"] by (simp add: literally_def)
  have 1: "matchKeys [(''k'', ''a*b'')] [(''k'', [CHR ''a'', CHR 0x0A, CHR ''b''])] = Inr False"
    by (simp add: isGlobValue_def re RegExp_test_def toStringArg_def lineTerminator_def)
  have 2: "matchKeys [(''k'', ''a*b'')] [(''k'', ''a-b'')] = Inr True"
    by (simp add: isGlobValue_def re RegExp_test_def toStringArg_def lineTerminator_def)
  have 3: "parseGlob ''**'' = Inl RegExpNothingToRepeat"
    using parseGlob_split [of "[]" "''*''"] by simp
  from 1 2 3 show ?thesis by simp
qed

text \<open>
  C8, as amended. Let the operation have no property \<open>k\<close>, neither its own nor a
  member of \<^verbatim>\<open>Object.prototype\<close>. For a rule value that is a glob, the key matches
  exactly when the compiled expression matches the string \<^verbatim>\<open>undefined\<close>; it does
  not fail as it does for a value without \<^verbatim>\<open>*\<close>. So the pattern \<^verbatim>\<open>{k: "un*"}\<close>
  matches, and a rule with this pattern is found.
\<close>

theorem glob_tests_undefined:
  assumes "getProperty op k = Undef"
  shows "(isGlobValue v \<longrightarrow>
            matchKeys ((k, v) # rest) op
            = (case parseGlob v of
                 Inl e \<Rightarrow> Inl e
               | Inr re \<Rightarrow> if matchesPrefix re ''undefined'' then matchKeys rest op
                           else Inr False))
       \<and> (\<not> isGlobValue v \<longrightarrow> matchKeys ((k, v) # rest) op = Inr False)
       \<and> matchKeys [(k, ''un*'')] op = Inr True
       \<and> (rules config = [r] \<and> operation r = [(k, ''un*'')] \<and> truthy (matchPolicy r)
            \<longrightarrow> findRules config op = Inr [r])"
proof -
  have re: "parseGlob ''un*'' = Inr (literally ''un'' @ [Many AnyChar])"
    using parseGlob_split [of "''un''" "[]"] by simp
  have un: "matchKeys [(k, ''un*'')] op = Inr True"
    using assms by (simp add: isGlobValue_def re RegExp_test_def toStringArg_def literally_def)
  have star: "parseGlob ''*'' = Inr [Many AnyChar]"
    using parseGlob_split [of "[]" "[]"] by (simp add: literally_def)
  have any: "matchesPrefix [Many AnyChar] ''undefined''"
    by (simp add: lineTerminator_def)
  have glob: "isGlobValue v \<longrightarrow>
            matchKeys ((k, v) # rest) op
            = (case parseGlob v of
                 Inl e \<Rightarrow> Inl e
               | Inr re \<Rightarrow> if matchesPrefix re ''undefined'' then matchKeys rest op
                           else Inr False)"
  proof (cases "v = ''*''")
    case True
    then show ?thesis by (simp add: star any)
  next
    case False
    then show ?thesis
      using assms by (simp add: RegExp_test_def toStringArg_def split: sum.splits)
  qed
  have lit: "\<not> isGlobValue v \<longrightarrow> matchKeys ((k, v) # rest) op = Inr False"
    using assms by (auto simp: isGlobValue_def)
  have rule: "rules config = [r] \<and> operation r = [(k, ''un*'')] \<and> truthy (matchPolicy r)
            \<longrightarrow> findRules config op = Inr [r]"
    using un by (simp add: findRules_def)
  from glob lit un rule show ?thesis by blast
qed

theorem glob_tests_undefined_witness:
  "getProperty [(''user'', ''u1'')] ''k'' = Undef
   \<and> matchKeys [(''k'', ''un*'')] [(''user'', ''u1'')] = Inr True
   \<and> matchKeys [(''k'', ''undefined'')] [(''user'', ''u1'')] = Inr False
   \<and> findRules \<lparr>rules = [exampleRule [(''k'', ''un*'')] ''stop''], ruleLabels = {}\<rparr>
        [(''user'', ''u1'')] = Inr [exampleRule [(''k'', ''un*'')] ''stop'']"
proof -
  have h: "getProperty [(''user'', ''u1'')] ''k'' = Undef"
    by (simp add: getProperty_def Object_prototype_def)
  note inst = glob_tests_undefined [OF h, of "''undefined''" "[]"
      "\<lparr>rules = [exampleRule [(''k'', ''un*'')] ''stop''], ruleLabels = {}\<rparr>"
      "exampleRule [(''k'', ''un*'')] ''stop''"]
  have 1: "matchKeys [(''k'', ''un*'')] [(''user'', ''u1'')] = Inr True"
    by (rule inst [THEN conjunct2, THEN conjunct2, THEN conjunct1])
  have "\<not> isGlobValue ''undefined''" by (simp add: isGlobValue_def)
  then have 2: "matchKeys [(''k'', ''undefined'')] [(''user'', ''u1'')] = Inr False"
    using inst [THEN conjunct2, THEN conjunct1] by blast
  have "truthy (matchPolicy (exampleRule [(''k'', ''un*'')] ''stop''))"
    by (simp add: exampleRule_def truthy_def)
  then have 3: "findRules \<lparr>rules = [exampleRule [(''k'', ''un*'')] ''stop''], ruleLabels = {}\<rparr>
        [(''user'', ''u1'')] = Inr [exampleRule [(''k'', ''un*'')] ''stop'']"
    using inst [THEN conjunct2, THEN conjunct2, THEN conjunct2]
    by (simp add: exampleRule_def)
  from h 1 2 3 show ?thesis by simp
qed

text \<open>
  The claim as it was stated fails for a key that names a member of
  \<^verbatim>\<open>Object.prototype\<close>. The empty operation has no key \<^verbatim>\<open>toString\<close>, yet
  \<^verbatim>\<open>operation["toString"]\<close> is the inherited function, and the compiled expression
  is tested against its text, \<^verbatim>\<open>function toString() { [native code] }\<close>: the
  pattern \<^verbatim>\<open>{toString: "un*"}\<close> does not match, the pattern
  \<^verbatim>\<open>{toString: "function*"}\<close> does.
\<close>

theorem glob_tests_inherited_counterexample:
  "map_of ([] :: operation) ''toString'' = None
   \<and> getProperty [] ''toString'' = Inherited ''function toString() { [native code] }''
   \<and> matchKeys [(''toString'', ''un*'')] [] = Inr False
   \<and> matchKeys [(''toString'', ''function*'')] [] = Inr True"
proof -
  have p: "getProperty [] ''toString'' = Inherited ''function toString() { [native code] }''"
    by (simp add: getProperty_def Object_prototype_def nativeFunction_def)
  have un: "parseGlob ''un*'' = Inr (literally ''un'' @ [Many AnyChar])"
    using parseGlob_split [of "''un''" "[]"] by simp
  have fn: "parseGlob ''function*'' = Inr (literally ''function'' @ [Many AnyChar])"
    using parseGlob_split [of "''function''" "[]"] by simp
  have 1: "matchKeys [(''toString'', ''un*'')] [] = Inr False"
    by (simp add: isGlobValue_def un p RegExp_test_def toStringArg_def literally_def)
  have 2: "matchKeys [(''toString'', ''function*'')] [] = Inr True"
    by (simp add: isGlobValue_def fn p RegExp_test_def toStringArg_def literally_def
        lineTerminator_def)
  from p 1 2 show ?thesis by simp
qed

lemma litPieces_literal_then_star:
  assumes "CHR ''*'' \<notin> set m" and "c \<noteq> CHR ''*''"
  shows "litPieces (m @ c # CHR ''*'' # r)
         = (case litPieces r of Inl e \<Rightarrow> Inl e
            | Inr ps \<Rightarrow> Inr (literally m @ Many (Lit c) # ps))"
  using assms
proof (induction m)
  case Nil
  then show ?case by (simp add: literally_def quantified_def split: sum.splits)
next
  case (Cons d m)
  then have "litPieces ((d # m) @ c # CHR ''*'' # r)
             = quantified (Lit d) False (litPieces (m @ c # CHR ''*'' # r))"
    by (cases m) auto
  then show ?case
    using Cons by (simp add: quantified_def literally_def split: sum.splits)
qed

lemma matchesPrefix_Many_only: "matchesPrefix [Many a] s"
  by (induction s) auto

text \<open>
  C9, as amended. Escaping copies every \<^verbatim>\<open>*\<close> of a value as it is, and only the first is
  then replaced. Let \<open>a\<close> and \<open>m\<close> be free of \<^verbatim>\<open>*\<close> and \<open>c\<close> a character other
  than \<^verbatim>\<open>*\<close>. In the pattern-value \<open>a\<close>, \<^verbatim>\<open>*\<close>, \<open>m\<close>, \<open>c\<close>, \<^verbatim>\<open>*\<close>, \<open>r\<close> the
  second \<^verbatim>\<open>*\<close> reaches the source of the expression as it is, neither escaped nor
  replaced, and the compiled matcher repeats the character \<open>c\<close> before it zero or
  more times. For the values of the form \<^verbatim>\<open>a*b*\<close> the matcher is
  \<^verbatim>\<open>^a.*b*\<close>: it matches every value that starts with \<open>a\<close>, whether or not a
  \<open>b\<close> occurs in it.
\<close>

theorem later_star_is_quantifier:
  assumes "CHR ''*'' \<notin> set a" and "CHR ''*'' \<notin> set m" and "c \<noteq> CHR ''*''"
  shows "globSource (a @ CHR ''*'' # m @ c # CHR ''*'' # r)
           = CHR ''^'' # escapeRegex a @ ''.*'' @ escapeRegex (m @ [c]) @ CHR ''*'' # escapeRegex r
       \<and> (litPieces r = Inr ps \<longrightarrow>
            parseGlob (a @ CHR ''*'' # m @ c # CHR ''*'' # r)
            = Inr (literally a @ Many AnyChar # literally m @ Many (Lit c) # ps))
       \<and> parseGlob (a @ CHR ''*'' # m @ [c, CHR ''*''])
            = Inr (literally a @ Many AnyChar # literally m @ [Many (Lit c)])
       \<and> (RegExp_test (literally a @ Many AnyChar # literally m @ [Many (Lit c)]) (Some x)
            \<longleftrightarrow> (\<exists>mid rest. x = a @ mid @ m @ rest \<and> (\<forall>d\<in>set mid. \<not> lineTerminator d)))
       \<and> RegExp_test (literally a @ [Many AnyChar, Many (Lit c)]) (Some (a @ y))
       \<and> escapeRegex (u @ CHR ''*'' # w) = escapeRegex u @ CHR ''*'' # escapeRegex w"
proof -
  have src: "globSource (a @ CHR ''*'' # m @ c # CHR ''*'' # r)
           = CHR ''^'' # escapeRegex a @ ''.*'' @ escapeRegex (m @ [c]) @ CHR ''*'' # escapeRegex r"
    using assms(1) by (simp add: globSource_split escapeRegex_append star_not_escaped)
  have gen: "litPieces r = Inr ps \<longrightarrow>
            parseGlob (a @ CHR ''*'' # m @ c # CHR ''*'' # r)
            = Inr (literally a @ Many AnyChar # literally m @ Many (Lit c) # ps)"
    using assms by (simp add: parseGlob_split litPieces_literal_then_star)
  have re: "parseGlob (a @ CHR ''*'' # m @ [c, CHR ''*''])
            = Inr (literally a @ Many AnyChar # literally m @ [Many (Lit c)])"
    using assms by (simp add: parseGlob_split litPieces_literal_then_star)
  have tail: "matchesPrefix (literally m @ [Many (Lit c)]) t \<longleftrightarrow> (\<exists>rest. t = m @ rest)" for t
    using matchesPrefix_literally [of m "[Many (Lit c)]" t] by (simp add: matchesPrefix_Many_only)
  have sem: "RegExp_test (literally a @ Many AnyChar # literally m @ [Many (Lit c)]) (Some x)
            \<longleftrightarrow> (\<exists>mid rest. x = a @ mid @ m @ rest \<and> (\<forall>d\<in>set mid. \<not> lineTerminator d))"
    unfolding RegExp_test_first_star tail by blast
  have "RegExp_test (literally a @ Many AnyChar # [Many (Lit c)]) (Some (a @ y))
            \<longleftrightarrow> (\<exists>mid rest. a @ y = a @ mid @ rest \<and> (\<forall>d\<in>set mid. \<not> lineTerminator d)
                    \<and> matchesPrefix [Many (Lit c)] rest)"
    by (rule RegExp_test_first_star)
  moreover have "a @ y = a @ [] @ y \<and> (\<forall>d\<in>set []. \<not> lineTerminator d)
                    \<and> matchesPrefix [Many (Lit c)] y"
    by (simp add: matchesPrefix_Many_only)
  ultimately have any: "RegExp_test (literally a @ [Many AnyChar, Many (Lit c)]) (Some (a @ y))"
    by blast
  have copy: "escapeRegex (u @ CHR ''*'' # w) = escapeRegex u @ CHR ''*'' # escapeRegex w"
    by (simp add: escapeRegex_append star_not_escaped)
  from src gen re sem any copy show ?thesis by blast
qed

theorem later_star_is_quantifier_witness:
  "CHR ''*'' \<notin> set ''a'' \<and> CHR ''b'' \<noteq> CHR ''*''
   \<and> globSource ''a*b*'' = ''^a.*b*''
   \<and> parseGlob ''a*b*'' = Inr [Once (Lit CHR ''a''), Many AnyChar, Many (Lit CHR ''b'')]
   \<and> RegExp_test [Once (Lit CHR ''a''), Many AnyChar, Many (Lit CHR ''b'')] (Some ''aX'')
   \<and> matchKeys [(''k'', ''a*b*'')] [(''k'', ''aX'')] = Inr True"
proof -
  have h1: "CHR ''*'' \<notin> set ''a''" by simp
  have h2: "CHR ''*'' \<notin> set ''''" by simp
  have h3: "CHR ''b'' \<noteq> CHR ''*''" by simp
  note inst = later_star_is_quantifier [OF h1 h2 h3, of "[]" "[]" "''aX''" "''X''"]
  have src: "globSource ''a*b*'' = ''^a.*b*''"
    using inst [THEN conjunct1]
    by (simp add: REGEX_ESCAPE_CHARACTERS_def backslash_def)
  have re: "parseGlob ''a*b*'' = Inr [Once (Lit CHR ''a''), Many AnyChar, Many (Lit CHR ''b'')]"
    using inst [THEN conjunct2, THEN conjunct2, THEN conjunct1] by (simp add: literally_def)
  have test: "RegExp_test [Once (Lit CHR ''a''), Many AnyChar, Many (Lit CHR ''b'')] (Some ''aX'')"
    using inst [THEN conjunct2, THEN conjunct2, THEN conjunct2, THEN conjunct2, THEN conjunct1]
    by (simp add: literally_def)
  have "matchKeys [(''k'', ''a*b*'')] [(''k'', ''aX'')] = Inr True"
    using test by (simp add: isGlobValue_def re)
  with h1 h3 src re test show ?thesis by simp
qed

text \<open>
  The claim as it was stated fails for a \<^verbatim>\<open>*\<close> that directly follows another. In
  \<^verbatim>\<open>a**\<close> and in \<^verbatim>\<open>a*b**\<close> the last \<^verbatim>\<open>*\<close> reaches the source as it is, neither
  escaped nor replaced, but it quantifies nothing: the constructor throws.
\<close>

theorem later_star_counterexample:
  "globSource ''a**'' = ''^a.**''
   \<and> parseGlob ''a**'' = Inl RegExpNothingToRepeat
   \<and> globSource ''a*b**'' = ''^a.*b**''
   \<and> parseGlob ''a*b**'' = Inl RegExpNothingToRepeat"
proof -
  have 1: "globSource ''a**'' = ''^a.**''"
    using globSource_split [of "''a''" "''*''"]
    by (simp add: REGEX_ESCAPE_CHARACTERS_def backslash_def)
  have 2: "parseGlob ''a**'' = Inl RegExpNothingToRepeat"
    using parseGlob_split [of "''a''" "''*''"] by simp
  have 3: "globSource ''a*b**'' = ''^a.*b**''"
    using globSource_split [of "''a''" "''b**''"]
    by (simp add: REGEX_ESCAPE_CHARACTERS_def backslash_def)
  have 4: "parseGlob ''a*b**'' = Inl RegExpNothingToRepeat"
    using parseGlob_split [of "''a''" "''b**''"] by (simp add: quantified_def)
  from 1 2 3 4 show ?thesis by simp
qed

subsection \<open>Precedence in \<^verbatim>\<open>findRules\<close>\<close>

lemma policy_constants:
  "truthy (Some MATCH_POLICY_STOP)" "truthy (Some MATCH_POLICY_CANARY)"
  "MATCH_POLICY_CANARY \<noteq> MATCH_POLICY_STOP"
  by (simp_all add: truthy_def MATCH_POLICY_STOP_def MATCH_POLICY_CANARY_def)

text \<open>
  C5. Let the rule set start with the rules \<open>A\<close> and \<open>B\<close>, both matching the
  operation, \<open>B\<close> with the policy \<^verbatim>\<open>stop\<close>. If \<open>A\<close> is a canary,
  \<^verbatim>\<open>findRules\<close> returns exactly \<open>[A, B]\<close>, whatever rules follow \<open>B\<close>: none of
  them is evaluated, not even one whose evaluation would throw. If \<open>A\<close> has the
  policy \<^verbatim>\<open>stop\<close>, it returns exactly \<open>[A]\<close>.
\<close>

theorem findRules_canary_then_stop:
  assumes "rules config = A # B # rest"
    and "matchKeys (operation A) op = Inr True"
    and "matchKeys (operation B) op = Inr True"
    and "matchPolicy B = Some MATCH_POLICY_STOP"
  shows "(matchPolicy A = Some MATCH_POLICY_CANARY \<longrightarrow> findRules config op = Inr [A, B])
       \<and> (matchPolicy A = Some MATCH_POLICY_STOP \<longrightarrow> findRules config op = Inr [A])"
  using assms by (simp add: findRules_def policy_constants)

theorem findRules_canary_then_stop_witness:
  "findRules \<lparr>rules = [exampleRule [(''a'', ''x'')] ''canary'', exampleRule [] ''stop'',
                       exampleRule [(''k'', ''**'')] ''stop''],
              ruleLabels = {}\<rparr> [(''a'', ''x'')]
     = Inr [exampleRule [(''a'', ''x'')] ''canary'', exampleRule [] ''stop'']
   \<and> findRules \<lparr>rules = [exampleRule [(''a'', ''x'')] ''stop'', exampleRule [] ''stop''],
              ruleLabels = {}\<rparr> [(''a'', ''x'')]
     = Inr [exampleRule [(''a'', ''x'')] ''stop'']"
proof -
  let ?A = "exampleRule [(''a'', ''x'')] ''canary''"
  let ?A' = "exampleRule [(''a'', ''x'')] ''stop''"
  let ?B = "exampleRule [] ''stop''"
  let ?C = "exampleRule [(''k'', ''**'')] ''stop''"
  have 1: "findRules \<lparr>rules = [?A, ?B, ?C], ruleLabels = {}\<rparr> [(''a'', ''x'')] = Inr [?A, ?B]"
    using findRules_canary_then_stop
      [of "\<lparr>rules = [?A, ?B, ?C], ruleLabels = {}\<rparr>" ?A ?B "[?C]" "[(''a'', ''x'')]"]
    by (simp add: exampleRule_def isGlobValue_def MATCH_POLICY_STOP_def MATCH_POLICY_CANARY_def)
  have 2: "findRules \<lparr>rules = [?A', ?B], ruleLabels = {}\<rparr> [(''a'', ''x'')] = Inr [?A']"
    using findRules_canary_then_stop
      [of "\<lparr>rules = [?A', ?B], ruleLabels = {}\<rparr>" ?A' ?B "[]" "[(''a'', ''x'')]"]
    by (simp add: exampleRule_def isGlobValue_def MATCH_POLICY_STOP_def MATCH_POLICY_CANARY_def)
  from 1 2 show ?thesis by simp
qed

subsection \<open>Construction by \<^verbatim>\<open>addRule\<close>\<close>

lemmas example_defs =
  exampleSpec_def exampleRule_def Config_new_def addRule_def findRules_def checkLabel_def
  checkMatchPolicy_def newRule_def orElse_def truthy_def MATCH_POLICY_STOP_def
  MATCH_POLICY_CANARY_def isGlobValue_def getProperty_def Object_prototype_def
  renderOperation_def unreachableError_def forOperation_def

lemma checkLabel_Inr:
  assumes "checkLabel l config = Inr config1"
  shows "rules config1 = rules config" and "ruleLabels config \<subseteq> ruleLabels config1"
  using assms by (auto simp: checkLabel_def split: option.splits if_splits)

lemma addRule_success:
  assumes "addRule spec config = (None, config1)"
  obtains op found config0 where
    "spec_operation spec = Some op"
    "findRules config op = Inr found"
    "find (\<lambda>r. matchPolicy r = Some MATCH_POLICY_STOP) found = None"
    "\<not> (isNaN_Number (spec_creditLimit spec) \<or> jsLess (spec_creditLimit spec) 0)"
    "\<not> (jsGreater (spec_creditLimit spec) 0
        \<and> (isNaN_Number (spec_resetSeconds spec) \<or> jsLess (spec_resetSeconds spec) 1))"
    "checkLabel (spec_label spec) config = Inr config0"
    "checkMatchPolicy (spec_matchPolicy spec) = None"
    "config1 = config0\<lparr>rules := rules config0 @ [newRule op spec]\<rparr>"
  using assms unfolding addRule_def
  by (auto split: option.splits sum.splits if_splits)

lemma addRule_failure:
  assumes "addRule spec config = (Some e, config1)"
  shows "rules config1 = rules config" and "ruleLabels config \<subseteq> ruleLabels config1"
  using assms unfolding addRule_def
  by (auto split: option.splits sum.splits if_splits dest: checkLabel_Inr)

lemma addRule_rules:
  assumes "addRule spec config = (e, config1)"
  shows "rules config1 = rules config
         \<or> (\<exists>op. e = None \<and> spec_operation spec = Some op
               \<and> checkMatchPolicy (spec_matchPolicy spec) = None
               \<and> rules config1 = rules config @ [newRule op spec])"
proof (cases e)
  case None
  with assms show ?thesis
    by (auto elim!: addRule_success dest: checkLabel_Inr)
next
  case (Some a)
  with assms show ?thesis by (simp add: addRule_failure)
qed

lemma newRule_matchPolicy:
  assumes "checkMatchPolicy (spec_matchPolicy spec) = None"
  shows "matchPolicy (newRule op spec) = Some MATCH_POLICY_STOP
         \<or> matchPolicy (newRule op spec) = Some MATCH_POLICY_CANARY"
  using assms
  by (auto simp: checkMatchPolicy_def newRule_def orElse_def truthy_def
      split: option.splits if_splits)

lemma matchKeys_error:
  assumes "matchKeys ps op = Inl e"
  shows "e = RegExpNothingToRepeat"
  using assms
  by (induction ps op rule: matchKeys.induct)
    (auto split: if_splits sum.splits dest: parseGlob_error)

lemma findRulesFrom_error:
  assumes "findRulesFrom rs op acc = Inl e"
  shows "e = RegExpNothingToRepeat \<or> (e = BugNoMatchPolicy \<and> (\<exists>r\<in>set rs. \<not> truthy (matchPolicy r)))"
  using assms
proof (induction rs arbitrary: acc)
  case Nil
  then show ?case by simp
next
  case (Cons r rs)
  show ?case
  proof (cases "truthy (matchPolicy r)")
    case False
    with Cons.prems show ?thesis by simp
  next
    case True
    show ?thesis
    proof (cases "matchKeys (operation r) op")
      case (Inl x)
      with True Cons.prems show ?thesis by (auto dest: matchKeys_error)
    next
      case (Inr b)
      with True Cons.prems Cons.IH show ?thesis
        by (auto split: if_splits)
    qed
  qed
qed

lemma built_policies:
  assumes "built config"
  shows "\<forall>r\<in>set (rules config). matchPolicy r = Some MATCH_POLICY_STOP
                                 \<or> matchPolicy r = Some MATCH_POLICY_CANARY"
  using assms
proof (induction rule: built.induct)
  case new
  then show ?case by (simp add: Config_new_def)
next
  case (add config spec e config1)
  from addRule_rules [OF add.hyps(2)] show ?case
  proof
    assume "rules config1 = rules config"
    with add.IH show ?thesis by simp
  next
    assume "\<exists>op. e = None \<and> spec_operation spec = Some op
               \<and> checkMatchPolicy (spec_matchPolicy spec) = None
               \<and> rules config1 = rules config @ [newRule op spec]"
    then obtain op where "checkMatchPolicy (spec_matchPolicy spec) = None"
      "rules config1 = rules config @ [newRule op spec]" by blast
    with add.IH newRule_matchPolicy [of spec op] show ?thesis by auto
  qed
qed

text \<open>
  C10. In a configuration built by \<^verbatim>\<open>addRule\<close> alone every rule has the match
  policy \<^verbatim>\<open>stop\<close> or \<^verbatim>\<open>canary\<close>, so \<^verbatim>\<open>findRules\<close> never throws the error
  of a rule without match policy; and a call of \<^verbatim>\<open>addRule\<close> whose match policy
  is missing or empty appends a rule with the policy \<^verbatim>\<open>stop\<close>.
\<close>

theorem built_defines_match_policy:
  assumes "built config"
  shows "(\<forall>r\<in>set (rules config). matchPolicy r = Some MATCH_POLICY_STOP
                                 \<or> matchPolicy r = Some MATCH_POLICY_CANARY)
       \<and> findRules config op \<noteq> Inl BugNoMatchPolicy
       \<and> (addRule spec config = (None, config1) \<and> \<not> truthy (spec_matchPolicy spec)
            \<longrightarrow> rules config1 \<noteq> []
                \<and> matchPolicy (last (rules config1)) = Some MATCH_POLICY_STOP)"
proof -
  note pol = built_policies [OF assms]
  then have "\<forall>r\<in>set (rules config). truthy (matchPolicy r)"
    using policy_constants by auto
  then have bug: "findRules config op \<noteq> Inl BugNoMatchPolicy"
    unfolding findRules_def using findRulesFrom_error by blast
  have norm: "addRule spec config = (None, config1) \<and> \<not> truthy (spec_matchPolicy spec)
            \<longrightarrow> rules config1 \<noteq> []
                \<and> matchPolicy (last (rules config1)) = Some MATCH_POLICY_STOP"
    by (auto elim!: addRule_success dest: checkLabel_Inr simp: newRule_def orElse_def)
  from pol bug norm show ?thesis by blast
qed

theorem built_defines_match_policy_witness:
  "addRule (exampleSpec (Some [(''a'', ''x'')]) None) Config_new
     = (None, \<lparr>rules = [exampleRule [(''a'', ''x'')] ''stop''], ruleLabels = {}\<rparr>)
   \<and> matchPolicy (exampleRule [(''a'', ''x'')] ''stop'') = Some MATCH_POLICY_STOP
   \<and> findRules \<lparr>rules = [exampleRule [(''a'', ''x'')] ''stop''], ruleLabels = {}\<rparr> []
       \<noteq> Inl BugNoMatchPolicy"
proof -
  let ?c = "\<lparr>rules = [exampleRule [(''a'', ''x'')] ''stop''], ruleLabels = {}\<rparr>"
  have ev: "addRule (exampleSpec (Some [(''a'', ''x'')]) None) Config_new = (None, ?c)"
    by (simp add: example_defs)
  have b: "built ?c"
    by (rule built.add [OF built.new ev])
  have 1: "matchPolicy (exampleRule [(''a'', ''x'')] ''stop'') = Some MATCH_POLICY_STOP"
    using built_defines_match_policy
      [OF built.new, of "[]" "exampleSpec (Some [(''a'', ''x'')]) None" ?c] ev
    by (simp add: exampleSpec_def truthy_def)
  have 2: "findRules ?c [] \<noteq> Inl BugNoMatchPolicy"
    using built_defines_match_policy [OF b, of "[]"] by blast
  from ev 1 2 show ?thesis by simp
qed

subsection \<open>Unreachable rules\<close>



lemma findRulesFrom_result:
  assumes "findRulesFrom rs op acc = Inr ms"
  shows "\<exists>ms1. ms = acc @ ms1
           \<and> set ms1 \<subseteq> {r \<in> set rs. matchKeys (operation r) op = Inr True}"
  using assms
proof (induction rs arbitrary: acc)
  case Nil
  then show ?case by simp
next
  case (Cons r rs)
  show ?case
  proof (cases "matchKeys (operation r) op")
    case (Inl e)
    with Cons.prems show ?thesis by (simp split: if_splits)
  next
    case (Inr b)
    show ?thesis
    proof (cases "b \<and> matchPolicy r \<noteq> Some MATCH_POLICY_STOP")
      case True
      with Cons.prems Inr have "findRulesFrom rs op (acc @ [r]) = Inr ms"
        by (simp split: if_splits)
      from Cons.IH [OF this] obtain ms1 where "ms = (acc @ [r]) @ ms1"
        "set ms1 \<subseteq> {r \<in> set rs. matchKeys (operation r) op = Inr True}" by blast
      then have "ms = acc @ (r # ms1)
           \<and> set (r # ms1) \<subseteq> {x \<in> set (r # rs). matchKeys (operation x) op = Inr True}"
        using True Inr by auto
      then show ?thesis by blast
    next
      case False
      show ?thesis
      proof (cases b)
        case True
        with False Cons.prems Inr have "ms = acc @ [r]"
          by (simp split: if_splits)
        then have "ms = acc @ [r]
           \<and> set [r] \<subseteq> {x \<in> set (r # rs). matchKeys (operation x) op = Inr True}"
          using True Inr by simp
        then show ?thesis by blast
      next
        case False
        with Cons.prems Inr have "findRulesFrom rs op acc = Inr ms"
          by (simp split: if_splits)
        from Cons.IH [OF this] show ?thesis by auto
      qed
    qed
  qed
qed

lemma findRulesFrom_stop:
  assumes "findRulesFrom rs op acc = Inr ms"
    and "r \<in> set rs" and "matchPolicy r = Some MATCH_POLICY_STOP"
    and "matchKeys (operation r) op = Inr True"
  shows "ms \<noteq> [] \<and> matchPolicy (last ms) = Some MATCH_POLICY_STOP"
  using assms
proof (induction rs arbitrary: acc)
  case Nil
  then show ?case by simp
next
  case (Cons x rs)
  show ?case
  proof (cases "x = r")
    case True
    with Cons.prems show ?thesis by (auto split: if_splits)
  next
    case False
    then have r: "r \<in> set rs" using Cons.prems by simp
    show ?thesis
    proof (cases "matchKeys (operation x) op")
      case (Inl e)
      with Cons.prems show ?thesis by (simp split: if_splits)
    next
      case (Inr b)
      show ?thesis
      proof (cases "b \<and> matchPolicy x = Some MATCH_POLICY_STOP")
        case True
        with Cons.prems Inr show ?thesis by (auto split: if_splits)
      next
        case False
        with Cons.prems Inr
        have "findRulesFrom rs op acc = Inr ms \<or> findRulesFrom rs op (acc @ [x]) = Inr ms"
          by (auto split: if_splits)
        with Cons.IH r Cons.prems(3,4) show ?thesis by blast
      qed
    qed
  qed
qed

lemma find_last:
  assumes "ms \<noteq> []" and "P (last ms)"
  shows "\<exists>m. find P ms = Some m \<and> P m \<and> m \<in> set ms"
  using assms
  by (cases "find P ms") (auto simp: find_None_iff find_Some_iff)

lemma renderOperation_cases:
  "renderOperation op = Inl TypeError \<or> renderOperation op = Inr ''[object Object]''"
  by (simp add: renderOperation_def split: option.splits)

lemma unreachableError_cases:
  "unreachableError op masking = UnreachableRule ''[object Object]'' ''[object Object]''
   \<or> unreachableError op masking = TypeError"
  using renderOperation_cases [of op] renderOperation_cases [of masking]
  by (auto simp: unreachableError_def)

text \<open>
  A rule whose pattern is matched by a \<^verbatim>\<open>stop\<close> rule of the set is rejected, and the
  configuration stays as it was. The error is that of \<^verbatim>\<open>findRules\<close>, or the type
  error of the template literal, or the unreachable-rule error; the message of the
  last is one and the same text, whatever the new rule and the masking rule are.
\<close>

lemma addRule_masked:
  assumes "r \<in> set (rules config)" and "matchPolicy r = Some MATCH_POLICY_STOP"
    and "matchKeys (operation r) op = Inr True" and "spec_operation spec = Some op"
  shows "\<exists>e. addRule spec config = (Some e, config)
             \<and> (e = UnreachableRule ''[object Object]'' ''[object Object]''
                 \<or> e = TypeError \<or> findRules config op = Inl e)"
proof (cases "findRules config op")
  case (Inl e)
  then have "addRule spec config = (Some e, config)"
    using assms(4) by (simp add: addRule_def)
  with Inl show ?thesis by blast
next
  case (Inr ms)
  then have fr: "findRulesFrom (rules config) op [] = Inr ms"
    by (simp add: findRules_def)
  from findRulesFrom_stop [OF fr assms(1,2,3)]
  obtain m where m: "find (\<lambda>r. matchPolicy r = Some MATCH_POLICY_STOP) ms = Some m"
    using find_last [of ms "\<lambda>r. matchPolicy r = Some MATCH_POLICY_STOP"] by blast
  have "addRule spec config = (Some (unreachableError op (operation m)), config)"
    using assms(4) Inr m by (simp add: addRule_def)
  with unreachableError_cases [of op "operation m"] show ?thesis by auto
qed

lemma addRule_after_default:
  assumes "r \<in> set (rules config)" and "matchPolicy r = Some MATCH_POLICY_STOP"
    and "operation r = []"
  shows "\<exists>e. addRule spec config = (Some e, config)"
proof (cases "spec_operation spec")
  case None
  then show ?thesis by (simp add: addRule_def)
next
  case (Some op)
  have "matchKeys (operation r) op = Inr True" using assms(3) by simp
  from addRule_masked [OF assms(1,2) this Some] show ?thesis by blast
qed

lemma parseGlob_double_star: "parseGlob ''a**'' = Inl RegExpNothingToRepeat"
  using parseGlob_split [of "''a''" "''*''"] by simp

text \<open>
  C6, on the code. The claim says that the error of \<^verbatim>\<open>addRule\<close> names the masking
  rule. The code does reject the new rule, but its error names nothing: the template
  literal renders both operations as \<^verbatim>\<open>[object Object]\<close>. After the rule \<^verbatim>\<open>{}\<close>,
  adding \<^verbatim>\<open>{op: "x"}\<close> throws the error with the message
  \<^verbatim>\<open>Unreachable rule for operation=[object Object]; masked by operation=[object Object]\<close>;
  after the rule \<^verbatim>\<open>{op: "x"}\<close>, adding \<^verbatim>\<open>{op: "x", b: "y"}\<close> throws the error with
  the very same message. And after the rules \<^verbatim>\<open>{a: "x", k: "a**"}\<close> and \<^verbatim>\<open>{}\<close>,
  adding \<^verbatim>\<open>{a: "x"}\<close> throws the syntax error of the constructor.
\<close>

theorem addRule_unreachable_message:
  "addRule (exampleSpec (Some [(''op'', ''x'')]) (Some ''stop''))
      \<lparr>rules = [exampleRule [] ''stop''], ruleLabels = {}\<rparr>
     = (Some (UnreachableRule ''[object Object]'' ''[object Object]''),
        \<lparr>rules = [exampleRule [] ''stop''], ruleLabels = {}\<rparr>)
   \<and> addRule (exampleSpec (Some [(''op'', ''x''), (''b'', ''y'')]) (Some ''stop''))
      \<lparr>rules = [exampleRule [(''op'', ''x'')] ''stop''], ruleLabels = {}\<rparr>
     = (Some (UnreachableRule ''[object Object]'' ''[object Object]''),
        \<lparr>rules = [exampleRule [(''op'', ''x'')] ''stop''], ruleLabels = {}\<rparr>)
   \<and> addRules [exampleSpec (Some [(''a'', ''x''), (''k'', ''a**'')]) None, exampleSpec (Some []) None]
       Config_new
     = (None, \<lparr>rules = [exampleRule [(''a'', ''x''), (''k'', ''a**'')] ''stop'',
                        exampleRule [] ''stop''], ruleLabels = {}\<rparr>)
   \<and> addRule (exampleSpec (Some [(''a'', ''x'')]) None)
        \<lparr>rules = [exampleRule [(''a'', ''x''), (''k'', ''a**'')] ''stop'',
                  exampleRule [] ''stop''], ruleLabels = {}\<rparr>
      = (Some RegExpNothingToRepeat,
         \<lparr>rules = [exampleRule [(''a'', ''x''), (''k'', ''a**'')] ''stop'',
                   exampleRule [] ''stop''], ruleLabels = {}\<rparr>)"
  by (simp add: example_defs parseGlob_double_star)

subsection \<open>The default rule and the result of \<^verbatim>\<open>findRules\<close>\<close>




subsection \<open>Accepted rule sets\<close>

lemma addRules_built:
  assumes "built config" and "addRules specs config = (e, config1)"
  shows "built config1"
  using assms
proof (induction specs arbitrary: config)
  case Nil
  then show ?case by simp
next
  case (Cons spec specs)
  obtain e0 c0 where a: "addRule spec config = (e0, c0)" by (cases "addRule spec config")
  then have b: "built c0" using Cons.prems(1) by (rule built.add [rotated])
  show ?case
  proof (cases e0)
    case None
    with a Cons.prems(2) have "addRules specs c0 = (e, config1)" by simp
    with Cons.IH b show ?thesis by blast
  next
    case (Some x)
    with a Cons.prems(2) have "config1 = c0" by simp
    with b show ?thesis by simp
  qed
qed

lemma addOverrides_accepted:
  assumes "built config" and "addOverrides rawConfig config = (None, config1)"
  shows "built config1 \<and> validate config1 = None"
  using assms addRules_built
  by (auto simp: addOverrides_def split: prod.splits option.splits)

lemma fromJsonFile_accepted:
  assumes "fromJsonFile rawConfig = Inr config"
  shows "built config \<and> validate config = None"
  using assms addOverrides_accepted [OF built.new]
  by (auto simp: fromJsonFile_def split: sum.splits prod.splits option.splits)

lemma fromIniFile_accepted:
  assumes "fromIniFile sections = Inr config"
  shows "built config \<and> validate config = None"
  using assms addRules_built [OF built.new]
  by (auto simp: fromIniFile_def split: sum.splits prod.splits option.splits)

lemma reset_config: "(config :: config)\<lparr>rules := [], ruleLabels := {}\<rparr> = Config_new"
  by (simp add: Config_new_def)

lemma processNewRules_accepted:
  assumes "processNewRules False parsedFile parsedRules config = (None, config1)"
  shows "built config1 \<and> validate config1 = None"
  using assms addOverrides_accepted [OF built.new]
  by (auto simp: processNewRules_def reset_config split: sum.splits)

lemma built_no_early_default:
  assumes "built config"
  shows "\<forall>r\<in>set (butlast (rules config)).
           \<not> (operation r = [] \<and> matchPolicy r = Some MATCH_POLICY_STOP)"
  using assms
proof (induction rule: built.induct)
  case new
  then show ?case by (simp add: Config_new_def)
next
  case (add config spec e config1)
  show ?case
  proof (cases e)
    case (Some a)
    with add show ?thesis by (simp add: addRule_failure)
  next
    case None
    with add.hyps(2) obtain op found config0 where s:
      "findRules config op = Inr found"
      "find (\<lambda>r. matchPolicy r = Some MATCH_POLICY_STOP) found = None"
      "checkLabel (spec_label spec) config = Inr config0"
      "config1 = config0\<lparr>rules := rules config0 @ [newRule op spec]\<rparr>"
      by (auto elim!: addRule_success)
    then have rs: "rules config1 = rules config @ [newRule op spec]"
      by (simp add: checkLabel_Inr)
    have "\<not> (operation r = [] \<and> matchPolicy r = Some MATCH_POLICY_STOP)"
      if "r \<in> set (rules config)" for r
    proof
      assume "operation r = [] \<and> matchPolicy r = Some MATCH_POLICY_STOP"
      then have "matchKeys (operation r) op = Inr True"
        "matchPolicy r = Some MATCH_POLICY_STOP" by simp_all
      with s(1) that have "found \<noteq> [] \<and> matchPolicy (last found) = Some MATCH_POLICY_STOP"
        using findRulesFrom_stop [of "rules config" op "[]" found r]
        by (simp add: findRules_def)
      then have "\<exists>m. find (\<lambda>r. matchPolicy r = Some MATCH_POLICY_STOP) found = Some m"
        using find_last [of found "\<lambda>r. matchPolicy r = Some MATCH_POLICY_STOP"] by blast
      with s(2) show False by simp
    qed
    with rs show ?thesis by simp
  qed
qed

text \<open>
  C2, as amended. In a rule set built by \<^verbatim>\<open>addRule\<close> and accepted by
  \<^verbatim>\<open>validate\<close>, as the three loaders build it (lemmas \<open>fromJsonFile_accepted\<close>,
  \<open>fromIniFile_accepted\<close> and \<open>processNewRules_accepted\<close>), the last rule has
  the empty pattern, and a rule with the empty pattern and the policy \<^verbatim>\<open>stop\<close> is
  the last rule of the set; so there is at most one such rule. Nothing is said of a
  rule with the empty pattern and the policy \<^verbatim>\<open>canary\<close>.
\<close>

theorem accepted_default_rule:
  assumes "built config" and "validate config = None"
  shows "rules config \<noteq> []
       \<and> operation (last (rules config)) = []
       \<and> (\<forall>i<length (rules config).
             operation (rules config ! i) = []
             \<and> matchPolicy (rules config ! i) = Some MATCH_POLICY_STOP
             \<longrightarrow> Suc i = length (rules config))"
proof -
  have ne: "rules config \<noteq> []" and dflt: "operation (last (rules config)) = []"
    using assms(2) by (auto simp: validate_def split: if_splits)
  have "Suc i = length (rules config)"
    if "i < length (rules config)" "operation (rules config ! i) = []"
      "matchPolicy (rules config ! i) = Some MATCH_POLICY_STOP" for i
  proof (rule ccontr)
    assume "Suc i \<noteq> length (rules config)"
    with that(1) have i: "i < length (butlast (rules config))" by simp
    then have "butlast (rules config) ! i \<in> set (butlast (rules config))"
      by (rule nth_mem)
    moreover have "butlast (rules config) ! i = rules config ! i"
      using i by (simp add: nth_butlast)
    ultimately show False
      using built_no_early_default [OF assms(1)] that(2,3) by auto
  qed
  with ne dflt show ?thesis by blast
qed

theorem accepted_default_rule_witness:
  "fromJsonFile \<lparr>overrides = Some [exampleSpec (Some [(''a'', ''x'')]) None],
                 defaultRule = Some (exampleSpec None None)\<rparr>
     = Inr \<lparr>rules = [exampleRule [(''a'', ''x'')] ''stop'', exampleRule [] ''stop''],
            ruleLabels = {}\<rparr>
   \<and> validate \<lparr>rules = [exampleRule [(''a'', ''x'')] ''stop'', exampleRule [] ''stop''],
                ruleLabels = {}\<rparr> = None
   \<and> operation (last (rules \<lparr>rules = [exampleRule [(''a'', ''x'')] ''stop'',
                                       exampleRule [] ''stop''], ruleLabels = {}\<rparr>)) = []"
proof -
  let ?raw = "\<lparr>overrides = Some [exampleSpec (Some [(''a'', ''x'')]) None],
                 defaultRule = Some (exampleSpec None None)\<rparr>"
  let ?c = "\<lparr>rules = [exampleRule [(''a'', ''x'')] ''stop'', exampleRule [] ''stop''],
            ruleLabels = {}\<rparr>"
  have ev: "fromJsonFile ?raw = Inr ?c"
    by (simp add: fromJsonFile_def pushDefault_def addOverrides_def loaderSpec_def
        stringifyObjectValues_def validate_def example_defs)
  from fromJsonFile_accepted [OF ev] have b: "built ?c" and v: "validate ?c = None"
    by simp_all
  have "operation (last (rules ?c)) = []"
    by (rule accepted_default_rule [OF b v, THEN conjunct2, THEN conjunct1])
  with ev v show ?thesis by simp
qed

text \<open>
  The claim as it was stated fails for a rule with the empty pattern and the policy
  \<^verbatim>\<open>canary\<close>: \<^verbatim>\<open>fromJsonFile\<close> accepts a file whose only override is such a rule.
  In the accepted rule set the rule is not a \<^verbatim>\<open>stop\<close> rule, is not the last rule,
  and is not the only rule with the empty pattern.
\<close>

theorem canary_default_counterexample:
  "fromJsonFile \<lparr>overrides = Some [exampleSpec (Some []) (Some ''canary'')],
                 defaultRule = Some (exampleSpec None None)\<rparr>
     = Inr \<lparr>rules = [exampleRule [] ''canary'', exampleRule [] ''stop''], ruleLabels = {}\<rparr>
   \<and> operation (exampleRule [] ''canary'') = []
   \<and> matchPolicy (exampleRule [] ''canary'') = Some MATCH_POLICY_CANARY
   \<and> MATCH_POLICY_CANARY \<noteq> MATCH_POLICY_STOP"
  by (simp add: fromJsonFile_def pushDefault_def addOverrides_def loaderSpec_def
      stringifyObjectValues_def validate_def example_defs)

subsection \<open>A reload cycle that fails\<close>

text \<open>
  A cycle that is skipped for an \<^verbatim>\<open>.ini\<close> file, or that fails while the static file
  is parsed, leaves the configuration as it was.
\<close>

lemma processNewRules_static_failure:
  "processNewRules True parsedFile parsedRules config = (None, config)"
  "processNewRules False (Inl e) parsedRules config = (Some e, config)"
  by (simp_all add: processNewRules_def)

text \<open>
  C1, on the code. The claim says that a failed reload cycle keeps the active rule
  set. The code does not: the live configuration, loaded from a file with the default
  rule alone, answers every operation with the default rule; a cycle in which the
  fetched data does not parse, or in which a fetched rule has an invalid match
  policy, throws and leaves the configuration without any rule, and \<^verbatim>\<open>findRules\<close>
  then returns the empty sequence.
\<close>

theorem processNewRules_failed_reload:
  "fromJsonFile \<lparr>overrides = Some [], defaultRule = Some (exampleSpec None None)\<rparr>
     = Inr \<lparr>rules = [exampleRule [] ''stop''], ruleLabels = {}\<rparr>
   \<and> findRules \<lparr>rules = [exampleRule [] ''stop''], ruleLabels = {}\<rparr> [(''a'', ''x'')]
       = Inr [exampleRule [] ''stop'']
   \<and> processNewRules False
         (Inr \<lparr>overrides = Some [], defaultRule = Some (exampleSpec None None)\<rparr>)
         (Inl JsonSyntaxError)
         \<lparr>rules = [exampleRule [] ''stop''], ruleLabels = {}\<rparr>
       = (Some JsonSyntaxError, \<lparr>rules = [], ruleLabels = {}\<rparr>)
   \<and> processNewRules False
         (Inr \<lparr>overrides = Some [], defaultRule = Some (exampleSpec None None)\<rparr>)
         (Inr [exampleSpec (Some [(''a'', ''x'')]) (Some ''bogus'')])
         \<lparr>rules = [exampleRule [] ''stop''], ruleLabels = {}\<rparr>
       = (Some (InvalidMatchPolicy ''bogus''), \<lparr>rules = [], ruleLabels = {}\<rparr>)
   \<and> findRules \<lparr>rules = [], ruleLabels = {}\<rparr> [(''a'', ''x'')] = Inr []"
  by (simp add: fromJsonFile_def processNewRules_def unshiftAll_def pushDefault_def
      addOverrides_def loaderSpec_def stringifyObjectValues_def validate_def example_defs)

subsection \<open>Serialization and loading\<close>

lemma jsonReloaded_fields [simp]:
  "operation (jsonReloaded r) = operation r"
  "matchPolicy (jsonReloaded r) = matchPolicy r"
  by (simp_all add: jsonReloaded_def)

lemma findRulesFrom_jsonReloaded:
  "findRulesFrom (map jsonReloaded rs) op (map jsonReloaded acc)
   = map_sum id (map jsonReloaded) (findRulesFrom rs op acc)"
proof (induction rs arbitrary: acc)
  case Nil
  then show ?case by simp
next
  case (Cons r rs)
  from Cons [of "acc @ [r]"] Cons [of acc] show ?case
    by (simp split: sum.splits)
qed

lemma findRules_jsonReloaded:
  assumes "rules c2 = map jsonReloaded (rules config)"
  shows "findRules c2 op = map_sum id (map jsonReloaded) (findRules config op)"
  using assms findRulesFrom_jsonReloaded [of "rules config" op "[]"]
  by (simp add: findRules_def)

lemma find_jsonReloaded:
  assumes "find (\<lambda>r. matchPolicy r = Some MATCH_POLICY_STOP) found = None"
  shows "find (\<lambda>r. matchPolicy r = Some MATCH_POLICY_STOP) (map jsonReloaded found) = None"
  using assms by (simp add: find_None_iff)

lemma jsonValue_creditLimit:
  assumes "\<not> (isNaN_Number v \<or> jsLess v 0)"
  shows "\<not> (isNaN_Number (jsonValue v) \<or> jsLess (jsonValue v) 0)"
  using assms by (cases v) simp_all

lemma jsGreater_jsonValue: "jsGreater (jsonValue v) 0 = finitePositive v"
  by (cases v) (simp_all add: finitePositive_def)

lemma finitePositive_jsGreater:
  assumes "finitePositive v"
  shows "jsGreater v 0"
  using assms by (cases v) (simp_all add: finitePositive_def)

lemma jsonValue_resetSeconds:
  assumes "\<not> isNaN_Number v" and "\<not> jsLess v 1" and "v \<noteq> Infinity"
  shows "jsonValue v = v"
  using assms by (cases v) simp_all

lemma checkLabel_replay:
  assumes "checkLabel l config = Inr config0" and "ruleLabels c2 \<subseteq> ruleLabels config"
  shows "\<exists>c3. checkLabel (orElse l None) c2 = Inr c3 \<and> rules c3 = rules c2
              \<and> ruleLabels c3 \<subseteq> ruleLabels config0"
  using assms
  by (auto simp: checkLabel_def orElse_def truthy_def split: option.splits if_splits)

lemma checkMatchPolicy_replay:
  assumes "checkMatchPolicy p = None"
  shows "checkMatchPolicy (orElse p (Some MATCH_POLICY_STOP)) = None"
  using assms
  by (auto simp: checkMatchPolicy_def orElse_def truthy_def split: option.splits if_splits)

lemma orElse_idem: "orElse (orElse x y) y = orElse x y"
  by (simp add: orElse_def)

lemma replay_step:
  assumes ok: "addRule spec config = (None, config1)"
    and rs: "rules c2 = map jsonReloaded (rules config)"
    and ls: "ruleLabels c2 \<subseteq> ruleLabels config"
    and fin: "\<not> (finitePositive (spec_creditLimit spec) \<and> spec_resetSeconds spec = Infinity)"
  shows "\<exists>op c3. rules config1 = rules config @ [newRule op spec]
           \<and> addRule (jsonRule (newRule op spec)) c2 = (None, c3)
           \<and> rules c3 = map jsonReloaded (rules config1)
           \<and> ruleLabels c3 \<subseteq> ruleLabels config1"
proof -
  from ok obtain op found config0 where s:
    "spec_operation spec = Some op"
    "findRules config op = Inr found"
    "find (\<lambda>r. matchPolicy r = Some MATCH_POLICY_STOP) found = None"
    "\<not> (isNaN_Number (spec_creditLimit spec) \<or> jsLess (spec_creditLimit spec) 0)"
    "\<not> (jsGreater (spec_creditLimit spec) 0
        \<and> (isNaN_Number (spec_resetSeconds spec) \<or> jsLess (spec_resetSeconds spec) 1))"
    "checkLabel (spec_label spec) config = Inr config0"
    "checkMatchPolicy (spec_matchPolicy spec) = None"
    "config1 = config0\<lparr>rules := rules config0 @ [newRule op spec]\<rparr>"
    by (rule addRule_success)
  let ?r = "newRule op spec"
  let ?j = "jsonRule ?r"
  have r1: "rules config1 = rules config @ [?r]"
    using s(6,8) by (simp add: checkLabel_Inr)
  have l1: "ruleLabels config1 = ruleLabels config0"
    using s(8) by simp
  have f1: "findRules c2 op = Inr (map jsonReloaded found)"
    using findRules_jsonReloaded [OF rs, of op] s(2) by simp
  have f2: "find (\<lambda>r. matchPolicy r = Some MATCH_POLICY_STOP) (map jsonReloaded found) = None"
    using s(3) by (rule find_jsonReloaded)
  have cl: "spec_creditLimit ?j = jsonValue (spec_creditLimit spec)"
    by (simp add: jsonRule_def newRule_def)
  have rsec: "spec_resetSeconds ?j = jsonValue (spec_resetSeconds spec)"
    by (simp add: jsonRule_def newRule_def)
  have cl_ok: "\<not> (isNaN_Number (spec_creditLimit ?j) \<or> jsLess (spec_creditLimit ?j) 0)"
    unfolding cl using s(4) by (rule jsonValue_creditLimit)
  have rs_ok: "\<not> (jsGreater (spec_creditLimit ?j) 0
        \<and> (isNaN_Number (spec_resetSeconds ?j) \<or> jsLess (spec_resetSeconds ?j) 1))"
  proof (cases "finitePositive (spec_creditLimit spec)")
    case True
    then have "jsGreater (spec_creditLimit spec) 0" by (rule finitePositive_jsGreater)
    with s(5) have v: "\<not> isNaN_Number (spec_resetSeconds spec)"
      "\<not> jsLess (spec_resetSeconds spec) 1" by simp_all
    from True fin have "spec_resetSeconds spec \<noteq> Infinity" by simp
    with v have "jsonValue (spec_resetSeconds spec) = spec_resetSeconds spec"
      by (rule jsonValue_resetSeconds)
    with v show ?thesis by (simp add: rsec)
  next
    case False
    then show ?thesis by (simp add: cl jsGreater_jsonValue)
  qed
  have lab: "spec_label ?j = orElse (spec_label spec) None"
    by (simp add: jsonRule_def newRule_def)
  from checkLabel_replay [OF s(6) ls] obtain c3 where c3:
    "checkLabel (spec_label ?j) c2 = Inr c3" "rules c3 = rules c2"
    "ruleLabels c3 \<subseteq> ruleLabels config0"
    unfolding lab by blast
  have pol: "checkMatchPolicy (spec_matchPolicy ?j) = None"
    using checkMatchPolicy_replay [OF s(7)] by (simp add: jsonRule_def newRule_def)
  have nr: "newRule op ?j = jsonReloaded ?r"
    by (simp add: newRule_def jsonRule_def jsonReloaded_def orElse_idem)
  have op: "spec_operation ?j = Some op"
    by (simp add: jsonRule_def newRule_def)
  have "addRule ?j c2 = (None, c3\<lparr>rules := rules c3 @ [jsonReloaded ?r]\<rparr>)"
    unfolding addRule_def using cl_ok rs_ok
    by (simp add: op f1 f2 c3(1) pol nr)
  moreover have "rules (c3\<lparr>rules := rules c3 @ [jsonReloaded ?r]\<rparr>) = map jsonReloaded (rules config1)"
    using c3(2) rs r1 by simp
  moreover have "ruleLabels (c3\<lparr>rules := rules c3 @ [jsonReloaded ?r]\<rparr>) \<subseteq> ruleLabels config1"
    using c3(3) l1 by simp
  ultimately show ?thesis using r1 by blast
qed

lemma addRules_snoc:
  "addRules (specs @ [spec]) config
   = (case addRules specs config of
        (Some e, config1) \<Rightarrow> (Some e, config1)
      | (None, config1) \<Rightarrow> addRule spec config1)"
proof (induction specs arbitrary: config)
  case Nil
  then show ?case by (simp split: prod.splits option.splits)
next
  case (Cons a specs)
  then show ?case by (simp split: prod.splits option.splits)
qed

lemma built_replay:
  assumes "built config"
  shows "(\<forall>r\<in>set (rules config). \<not> (finitePositive (creditLimit r) \<and> resetSeconds r = Infinity))
         \<longrightarrow> (\<exists>c2. addRules (map jsonRule (rules config)) Config_new = (None, c2)
                  \<and> rules c2 = map jsonReloaded (rules config)
                  \<and> ruleLabels c2 \<subseteq> ruleLabels config)"
  using assms
proof (induction rule: built.induct)
  case new
  then show ?case by (simp add: Config_new_def)
next
  case (add config spec e config1)
  show ?case
  proof
    assume fin1: "\<forall>r\<in>set (rules config1).
                    \<not> (finitePositive (creditLimit r) \<and> resetSeconds r = Infinity)"
    show "\<exists>c2. addRules (map jsonRule (rules config1)) Config_new = (None, c2)
                  \<and> rules c2 = map jsonReloaded (rules config1)
                  \<and> ruleLabels c2 \<subseteq> ruleLabels config1"
    proof (cases e)
      case (Some x)
      with add.hyps(2) have same: "rules config1 = rules config"
        "ruleLabels config \<subseteq> ruleLabels config1"
        by (simp_all add: addRule_failure)
      with fin1 add.IH obtain c2 where
        "addRules (map jsonRule (rules config)) Config_new = (None, c2)"
        "rules c2 = map jsonReloaded (rules config)" "ruleLabels c2 \<subseteq> ruleLabels config"
        by auto
      with same show ?thesis by auto
    next
      case None
      with add.hyps(2) have ok: "addRule spec config = (None, config1)" by simp
      have "\<exists>op0. rules config1 = rules config @ [newRule op0 spec]"
      proof (rule addRule_success [OF ok])
        fix op found config0
        assume "checkLabel (spec_label spec) config = Inr config0"
          and "config1 = config0\<lparr>rules := rules config0 @ [newRule op spec]\<rparr>"
        then have "rules config1 = rules config @ [newRule op spec]"
          by (simp add: checkLabel_Inr)
        then show ?thesis by blast
      qed
      then obtain op0 where r0: "rules config1 = rules config @ [newRule op0 spec]"
        by blast
      with fin1 have fin0: "\<forall>r\<in>set (rules config).
                    \<not> (finitePositive (creditLimit r) \<and> resetSeconds r = Infinity)"
        and "\<not> (finitePositive (creditLimit (newRule op0 spec))
                \<and> resetSeconds (newRule op0 spec) = Infinity)"
        by simp_all
      then have fin: "\<not> (finitePositive (spec_creditLimit spec)
                          \<and> spec_resetSeconds spec = Infinity)"
        by (simp add: newRule_def)
      from fin0 add.IH obtain c2 where c2:
        "addRules (map jsonRule (rules config)) Config_new = (None, c2)"
        "rules c2 = map jsonReloaded (rules config)" "ruleLabels c2 \<subseteq> ruleLabels config"
        by blast
      from replay_step [OF ok c2(2,3) fin] obtain op c3 where c3:
        "rules config1 = rules config @ [newRule op spec]"
        "addRule (jsonRule (newRule op spec)) c2 = (None, c3)"
        "rules c3 = map jsonReloaded (rules config1)"
        "ruleLabels c3 \<subseteq> ruleLabels config1" by blast
      have "addRules (map jsonRule (rules config1)) Config_new = (None, c3)"
        using c2(1) c3(1,2) by (simp add: addRules_snoc)
      with c3(3,4) show ?thesis by blast
    qed
  qed
qed

lemma toJsonFrom_overrides:
  assumes "\<forall>r\<in>set rs. operation r \<noteq> []"
  shows "toJsonFrom rs d = d\<lparr>data_overrides := data_overrides d @ rs\<rparr>"
  using assms by (induction rs arbitrary: d) auto

lemma toJsonFrom_append: "toJsonFrom (xs @ ys) d = toJsonFrom ys (toJsonFrom xs d)"
  by (induction xs arbitrary: d) auto

lemma toJson_accepted:
  assumes "validate config = None" and "\<forall>r\<in>set (butlast (rules config)). operation r \<noteq> []"
  shows "pushDefault (toJson config)
         = Inr \<lparr>overrides = Some (map jsonRule (rules config)),
                defaultRule = Some (jsonRule (last (rules config)))\<rparr>"
proof -
  have ne: "rules config \<noteq> []" and dflt: "operation (last (rules config)) = []"
    using assms(1) by (auto simp: validate_def split: if_splits)
  then have split: "rules config = butlast (rules config) @ [last (rules config)]"
    by simp
  have "toJsonData config
        = \<lparr>data_overrides = butlast (rules config), data_default = Some (last (rules config))\<rparr>"
    unfolding toJsonData_def
    by (subst split) (simp add: toJsonFrom_append toJsonFrom_overrides assms(2) dflt)
  then have "toJson config
        = \<lparr>overrides = Some (map jsonRule (butlast (rules config))),
           defaultRule = Some (jsonRule (last (rules config)))\<rparr>"
    by (simp add: toJson_def JSON_parse_stringify_def)
  moreover have "map jsonRule (butlast (rules config)) @ [jsonRule (last (rules config))]
                 = map jsonRule (rules config)"
    by (subst (3) split) simp
  ultimately show ?thesis by (simp add: pushDefault_def)
qed

lemma loaderSpec_jsonRule: "map loaderSpec (map jsonRule rs) = map jsonRule rs"
  by (simp add: loaderSpec_def jsonRule_def stringifyObjectValues_def)

lemmas loader_defs =
  fromJsonFile_def fromIniFile_def iniSpec_def pushDefault_def addOverrides_def loaderSpec_def
  stringifyObjectValues_def validate_def toJson_def toJsonData_def JSON_parse_stringify_def
  jsonRule_def

text \<open>
  C7, as amended. Let the rule set be built by \<^verbatim>\<open>addRule\<close> and accepted by
  \<^verbatim>\<open>validate\<close>, with numbers, \<^verbatim>\<open>null\<close> or nothing in \<^verbatim>\<open>creditLimit\<close> and
  \<^verbatim>\<open>resetSeconds\<close>; let its last rule be its only rule with the empty pattern, and
  let no rule have a finite \<^verbatim>\<open>creditLimit\<close> above 0 together with an infinite
  \<^verbatim>\<open>resetSeconds\<close>. Then \<^verbatim>\<open>fromJsonFile\<close> accepts the output of \<^verbatim>\<open>toJson\<close>. The
  rule set it yields has the same rules in the same order, except that a
  \<^verbatim>\<open>creditLimit\<close> or \<^verbatim>\<open>resetSeconds\<close> that was \<^verbatim>\<open>NaN\<close> or infinite is
  \<^verbatim>\<open>null\<close>; for every operation \<^verbatim>\<open>findRules\<close> returns the corresponding rules, or
  throws the same error. Where these two fields of every rule are finite numbers,
  \<^verbatim>\<open>null\<close> or missing, the rules and the results of \<^verbatim>\<open>findRules\<close> are the same.
\<close>

theorem toJson_round_trip:
  assumes "built config" and "validate config = None"
    and "\<forall>r\<in>set (butlast (rules config)). operation r \<noteq> []"
    and "\<forall>r\<in>set (rules config). \<not> (finitePositive (creditLimit r) \<and> resetSeconds r = Infinity)"
  shows "\<exists>config1. fromJsonFile (toJson config) = Inr config1
           \<and> rules config1 = map jsonReloaded (rules config)
           \<and> (\<forall>op. findRules config1 op = map_sum id (map jsonReloaded) (findRules config op))
           \<and> ((\<forall>r\<in>set (rules config). jsonValue (creditLimit r) = creditLimit r
                                        \<and> jsonValue (resetSeconds r) = resetSeconds r) \<longrightarrow>
                 rules config1 = rules config
                 \<and> (\<forall>op. findRules config1 op = findRules config op))"
proof -
  from built_replay [OF assms(1)] assms(4) obtain c2 where c2:
    "addRules (map jsonRule (rules config)) Config_new = (None, c2)"
    "rules c2 = map jsonReloaded (rules config)" by blast
  have ne: "rules config \<noteq> []" and dflt: "operation (last (rules config)) = []"
    using assms(2) by (auto simp: validate_def split: if_splits)
  have v: "validate c2 = None"
    using ne dflt c2(2) by (simp add: validate_def last_map)
  have load: "fromJsonFile (toJson config) = Inr c2"
    by (simp add: fromJsonFile_def toJson_accepted [OF assms(2,3)] addOverrides_def
        loaderSpec_jsonRule c2(1) v del: map_map)
  have find: "\<forall>op. findRules c2 op = map_sum id (map jsonReloaded) (findRules config op)"
    using findRules_jsonReloaded [OF c2(2)] by simp
  have same: "(\<forall>r\<in>set (rules config). jsonValue (creditLimit r) = creditLimit r
                                        \<and> jsonValue (resetSeconds r) = resetSeconds r) \<longrightarrow>
                 rules c2 = rules config \<and> (\<forall>op. findRules c2 op = findRules config op)"
  proof
    assume nn: "\<forall>r\<in>set (rules config). jsonValue (creditLimit r) = creditLimit r
                                        \<and> jsonValue (resetSeconds r) = resetSeconds r"
    have "jsonReloaded r = r" if "r \<in> set (rules config)" for r
      using nn that by (simp add: jsonReloaded_def)
    then have "map jsonReloaded (rules config) = rules config"
      by (simp add: map_idI)
    with c2(2) have eq: "rules c2 = rules config" by simp
    then show "rules c2 = rules config \<and> (\<forall>op. findRules c2 op = findRules config op)"
      by (simp add: findRules_def)
  qed
  from load c2(2) find same show ?thesis by blast
qed

theorem toJson_round_trip_witness:
  "fromJsonFile \<lparr>overrides = Some [exampleSpec (Some [(''a'', ''x'')]) None],
                 defaultRule = Some (exampleSpec None None)\<rparr>
     = Inr \<lparr>rules = [exampleRule [(''a'', ''x'')] ''stop'', exampleRule [] ''stop''],
            ruleLabels = {}\<rparr>
   \<and> fromJsonFile (toJson \<lparr>rules = [exampleRule [(''a'', ''x'')] ''stop'',
                                      exampleRule [] ''stop''], ruleLabels = {}\<rparr>)
     = Inr \<lparr>rules = [exampleRule [(''a'', ''x'')] ''stop'', exampleRule [] ''stop''],
            ruleLabels = {}\<rparr>"
proof -
  let ?raw = "\<lparr>overrides = Some [exampleSpec (Some [(''a'', ''x'')]) None],
                 defaultRule = Some (exampleSpec None None)\<rparr>"
  let ?c = "\<lparr>rules = [exampleRule [(''a'', ''x'')] ''stop'', exampleRule [] ''stop''],
            ruleLabels = {}\<rparr>"
  have ev: "fromJsonFile ?raw = Inr ?c"
    by (simp add: loader_defs example_defs)
  from fromJsonFile_accepted [OF ev] have b: "built ?c" and v: "validate ?c = None"
    by simp_all
  have h: "\<forall>r\<in>set (butlast (rules ?c)). operation r \<noteq> []"
    by (simp add: exampleRule_def)
  have fin: "\<forall>r\<in>set (rules ?c). \<not> (finitePositive (creditLimit r) \<and> resetSeconds r = Infinity)"
    by (simp add: exampleRule_def)
  have nn: "\<forall>r\<in>set (rules ?c). jsonValue (creditLimit r) = creditLimit r
                                  \<and> jsonValue (resetSeconds r) = resetSeconds r"
    by (simp add: exampleRule_def)
  from toJson_round_trip [OF b v h fin] nn obtain config1 where
    c1: "fromJsonFile (toJson ?c) = Inr config1" "rules config1 = rules ?c"
    by blast
  have "fromJsonFile (toJson ?c) = Inr ?c"
    by (simp add: loader_defs example_defs)
  with ev c1 show ?thesis by simp
qed

text \<open>
  The claim as it was stated fails three times. \<^verbatim>\<open>toJson\<close> keeps only the last rule
  with the empty pattern, as \<^verbatim>\<open>default\<close>: a rule set with a canary of the empty
  pattern before the default rule is reloaded without the canary, and \<^verbatim>\<open>findRules\<close>
  returns one rule where it returned two. A rule loaded by \<^verbatim>\<open>fromIniFile\<close> with the
  credit limit 0 and no \<^verbatim>\<open>resetSeconds\<close> holds \<^verbatim>\<open>NaN\<close>; it is reloaded with
  \<^verbatim>\<open>null\<close>. And a default rule with the credit limit 1 and the \<^verbatim>\<open>resetSeconds\<close>
  \<^verbatim>\<open>1e999\<close> is loaded with \<^verbatim>\<open>Infinity\<close> and written with \<^verbatim>\<open>null\<close>: loading
  the output throws the error of an invalid \<^verbatim>\<open>resetSeconds\<close>.
\<close>

theorem toJson_round_trip_counterexample:
  "fromJsonFile \<lparr>overrides = Some [exampleSpec (Some []) (Some ''canary'')],
                 defaultRule = Some (exampleSpec None None)\<rparr>
     = Inr \<lparr>rules = [exampleRule [] ''canary'', exampleRule [] ''stop''], ruleLabels = {}\<rparr>
   \<and> findRules \<lparr>rules = [exampleRule [] ''canary'', exampleRule [] ''stop''],
                ruleLabels = {}\<rparr> [(''a'', ''x'')]
     = Inr [exampleRule [] ''canary'', exampleRule [] ''stop'']
   \<and> fromJsonFile (toJson \<lparr>rules = [exampleRule [] ''canary'', exampleRule [] ''stop''],
                            ruleLabels = {}\<rparr>)
     = Inr \<lparr>rules = [exampleRule [] ''stop''], ruleLabels = {}\<rparr>
   \<and> findRules \<lparr>rules = [exampleRule [] ''stop''], ruleLabels = {}\<rparr> [(''a'', ''x'')]
     = Inr [exampleRule [] ''stop'']
   \<and> fromIniFile [\<lparr>ini_operation = [], ini_creditLimit = Num 0, ini_resetSeconds = NaN,
                    ini_actorField = None, ini_matchPolicy = None, ini_comment = None,
                    ini_label = None\<rparr>]
     = Inr \<lparr>rules = [(exampleRule [] ''stop'')\<lparr>creditLimit := Num 0, resetSeconds := NaN\<rparr>],
            ruleLabels = {}\<rparr>
   \<and> fromJsonFile (toJson
         \<lparr>rules = [(exampleRule [] ''stop'')\<lparr>creditLimit := Num 0, resetSeconds := NaN\<rparr>],
          ruleLabels = {}\<rparr>)
     = Inr \<lparr>rules = [(exampleRule [] ''stop'')\<lparr>creditLimit := Num 0, resetSeconds := Null\<rparr>],
            ruleLabels = {}\<rparr>
   \<and> fromJsonFile \<lparr>overrides = Some [],
                   defaultRule = Some ((exampleSpec None None)\<lparr>spec_resetSeconds := Infinity\<rparr>)\<rparr>
     = Inr \<lparr>rules = [(exampleRule [] ''stop'')\<lparr>resetSeconds := Infinity\<rparr>], ruleLabels = {}\<rparr>
   \<and> fromJsonFile (toJson
         \<lparr>rules = [(exampleRule [] ''stop'')\<lparr>resetSeconds := Infinity\<rparr>], ruleLabels = {}\<rparr>)
     = Inl InvalidResetSeconds"
  by (simp add: loader_defs example_defs)

end
